theory Spec2Isabelle
  imports Complex_Main
begin

section \<open>Python values used by the learner scripts\<close>

text \<open>
  The scripts of \<^verbatim>\<open>src/Learners/PythonLearners\<close> raise Python exceptions or call
  \<^verbatim>\<open>sys.exit\<close>; every one of these is a value of \<open>error\<close>, and a computation that can
  fail has a result of type \<open>error + 'a\<close> with \<open>Inl\<close> for the failure.
\<close>

datatype error =
    IndexError
  | KeyError
  | AttributeError
  | TypeError
  | ValueError
  | OverflowError
  | Exit string

subsection \<open>Strings\<close>

text \<open>\<^verbatim>\<open>s.startswith(p)\<close>.\<close>

fun startswith :: "string \<Rightarrow> string \<Rightarrow> bool" where
  "startswith s [] = True"
| "startswith [] (p # ps) = False"
| "startswith (c # cs) (p # ps) = (c = p \<and> startswith cs ps)"

text \<open>
  \<^verbatim>\<open>s.replace(old, new)\<close>: every occurrence of \<open>old\<close>, found from left to right and
  without overlap, is replaced. For the empty \<open>old\<close> Python puts \<open>new\<close> before every
  character and at the end.
\<close>

fun replace_nonempty :: "string \<Rightarrow> string \<Rightarrow> string \<Rightarrow> string" where
  "replace_nonempty old new [] = []"
| "replace_nonempty old new (c # cs) =
     (if startswith (c # cs) old
      then new @ replace_nonempty old new (drop (length old - 1) cs)
      else c # replace_nonempty old new cs)"

definition replace :: "string \<Rightarrow> string \<Rightarrow> string \<Rightarrow> string" where
  "replace s old new =
     (if old = [] then new @ concat (map (\<lambda>c. c # new) s)
      else replace_nonempty old new s)"

text \<open>\<^verbatim>\<open>k in s\<close>: the text \<open>k\<close> occurs in \<open>s\<close>.\<close>

fun contains :: "string \<Rightarrow> string \<Rightarrow> bool" where
  "contains [] k = (k = [])"
| "contains (c # cs) k = (startswith (c # cs) k \<or> contains cs k)"

text \<open>\<^verbatim>\<open>xs[i]\<close> for an index that is not negative.\<close>

definition item :: "'a list \<Rightarrow> nat \<Rightarrow> error + 'a" where
  "item xs i = (if i < length xs then Inr (xs ! i) else Inl IndexError)"

text \<open>\<^verbatim>\<open>str(i)\<close> for a counter \<open>i\<close>, which is never negative: its decimal digits.\<close>

fun str :: "nat \<Rightarrow> string" where
  "str n = (if n < 10 then [''0123456789'' ! n] else str (n div 10) @ [''0123456789'' ! (n mod 10)])"

declare str.simps [simp del]

subsection \<open>Floating-point numbers\<close>

text \<open>
  A Python \<^verbatim>\<open>float\<close> is an IEEE 754 double: a finite value, which is a rational number, one
  of the two infinities, or not a number. The sign of a zero is left out: no operation
  below tells the two zeros apart. \<open>round_double q\<close> is the double nearest to the rational
  \<open>q\<close>, the one with the even significand when two are equally near: the significand has
  53 bits, the exponent of a normal number is at least -1022, the numbers below
  \<open>2^-1022\<close> are spaced \<open>2^-1074\<close> apart, and what rounds to \<open>2^1024\<close> or more is an
  infinity.
\<close>

datatype double = Finite rat | PosInf | NegInf | NaN

definition pow2 :: "int \<Rightarrow> rat" where
  "pow2 k = (if 0 \<le> k then 2 ^ nat k else 1 / 2 ^ nat (- k))"

function bit_length :: "int \<Rightarrow> int" where
  "bit_length a = (if a \<le> 0 then 0 else 1 + bit_length (a div 2))"
  by auto
termination
  by (relation "measure nat") auto

declare bit_length.simps [simp del]

text \<open>
  For a positive \<open>q\<close>, \<open>floor_log2 q\<close> is the exponent \<open>e\<close> with \<open>2^e \<le> q < 2^(e+1)\<close>: the
  difference of the bit lengths of numerator and denominator, or one less.
\<close>

definition floor_log2 :: "rat \<Rightarrow> int" where
  "floor_log2 q =
     (let k = bit_length (fst (quotient_of q)) - bit_length (snd (quotient_of q))
      in if pow2 k \<le> q then k else k - 1)"

definition round_half_even :: "rat \<Rightarrow> int" where
  "round_half_even m =
     (let f = \<lfloor>m\<rfloor>; d = m - of_int f
      in if d < 1 / 2 then f
         else if 1 / 2 < d then f + 1
         else if even f then f else f + 1)"

definition round_magnitude :: "rat \<Rightarrow> rat" where
  "round_magnitude q =
     (let ulp = pow2 (max (floor_log2 q) (- 1022) - 52)
      in of_int (round_half_even (q / ulp)) * ulp)"

definition round_double :: "rat \<Rightarrow> double" where
  "round_double q =
     (if q = 0 then Finite 0
      else if 0 < q
      then (if 1024 \<le> floor_log2 (round_magnitude q) then PosInf
            else Finite (round_magnitude q))
      else (if 1024 \<le> floor_log2 (round_magnitude (- q)) then NegInf
            else Finite (- round_magnitude (- q))))"

text \<open>\<^verbatim>\<open>x - y\<close> and \<^verbatim>\<open>x * y\<close> on floats.\<close>

fun float_sub :: "double \<Rightarrow> double \<Rightarrow> double" where
  "float_sub (Finite a) (Finite b) = round_double (a - b)"
| "float_sub NaN y = NaN"
| "float_sub x NaN = NaN"
| "float_sub PosInf PosInf = NaN"
| "float_sub NegInf NegInf = NaN"
| "float_sub PosInf y = PosInf"
| "float_sub NegInf y = NegInf"
| "float_sub (Finite a) PosInf = NegInf"
| "float_sub (Finite a) NegInf = PosInf"

fun float_mul :: "double \<Rightarrow> double \<Rightarrow> double" where
  "float_mul (Finite a) (Finite b) = round_double (a * b)"
| "float_mul NaN y = NaN"
| "float_mul x NaN = NaN"
| "float_mul PosInf (Finite b) = (if b = 0 then NaN else if 0 < b then PosInf else NegInf)"
| "float_mul NegInf (Finite b) = (if b = 0 then NaN else if 0 < b then NegInf else PosInf)"
| "float_mul (Finite a) PosInf = (if a = 0 then NaN else if 0 < a then PosInf else NegInf)"
| "float_mul (Finite a) NegInf = (if a = 0 then NaN else if 0 < a then NegInf else PosInf)"
| "float_mul PosInf PosInf = PosInf"
| "float_mul NegInf NegInf = PosInf"
| "float_mul PosInf NegInf = NegInf"
| "float_mul NegInf PosInf = NegInf"

text \<open>
  The conversion of an integer that is not negative to a float, as the product of a float
  and an integer makes it: \<^verbatim>\<open>OverflowError\<close> when the integer is too large for a double.
\<close>

definition float_of_nat :: "nat \<Rightarrow> error + double" where
  "float_of_nat n =
     (case round_double (of_nat n) of
        Finite q \<Rightarrow> Inr (Finite q)
      | _ \<Rightarrow> Inl OverflowError)"

text \<open>
  \<^verbatim>\<open>math.ceil(x)\<close> for a float: \<^verbatim>\<open>ValueError\<close> for what is not a number, \<^verbatim>\<open>OverflowError\<close>
  for an infinity.
\<close>

definition ceil :: "double \<Rightarrow> error + int" where
  "ceil x =
     (case x of
        Finite q \<Rightarrow> Inr \<lceil>q\<rceil>
      | NaN \<Rightarrow> Inl ValueError
      | _ \<Rightarrow> Inl OverflowError)"

subsection \<open>Regular expressions of the range parser\<close>

text \<open>
  The patterns that \<^verbatim>\<open>wittgenstein_learner.py\<close> compiles are sequences of single
  character classes, each taken once or under one of the greedy quantifiers \<^verbatim>\<open>?\<close>,
  \<^verbatim>\<open>*\<close>, \<^verbatim>\<open>+\<close>. \<open>cls\<close> is a character class, \<open>item\<close> a quantified class and a
  pattern is a list of items. A character is a code point below 256: of these \<^verbatim>\<open>\d\<close>
  matches the ten ASCII digits, and \<^verbatim>\<open>\s\<close> matches the blank, the control characters 9 to
  13 and 28 to 31, and the code points 133 and 160.
\<close>

datatype cls = Lit char | NotLit char | Digit | Space

datatype item = One cls | Opt cls | Star cls | Plus cls

fun in_cls :: "cls \<Rightarrow> char \<Rightarrow> bool" where
  "in_cls (Lit c) x = (x = c)"
| "in_cls (NotLit c) x = (x \<noteq> c)"
| "in_cls Digit x = (x \<in> set ''0123456789'')"
| "in_cls Space x =
     (x \<in> {CHR '' '', CHR 0x09, CHR 0x0A, CHR 0x0B, CHR 0x0C, CHR 0x0D,
            CHR 0x1C, CHR 0x1D, CHR 0x1E, CHR 0x1F, CHR 0x85, CHR 0xA0})"

text \<open>
  \<open>match_here p s\<close> is what Python's backtracking matcher finds for \<open>p\<close> at the start of
  \<open>s\<close>: the rest of \<open>s\<close> after the match, or \<open>None\<close>. A greedy quantifier first takes
  the character and gives it back only when the rest of the pattern fails.
\<close>

fun match_here :: "item list \<Rightarrow> string \<Rightarrow> string option" where
  "match_here [] s = Some s"
| "match_here (One c # p) [] = None"
| "match_here (One c # p) (x # xs) = (if in_cls c x then match_here p xs else None)"
| "match_here (Plus c # p) [] = None"
| "match_here (Plus c # p) (x # xs) =
     (if in_cls c x then match_here (Star c # p) xs else None)"
| "match_here (Opt c # p) [] = match_here p []"
| "match_here (Opt c # p) (x # xs) =
     (if in_cls c x
      then (case match_here p xs of Some t \<Rightarrow> Some t | None \<Rightarrow> match_here p (x # xs))
      else match_here p (x # xs))"
| "match_here (Star c # p) [] = match_here p []"
| "match_here (Star c # p) (x # xs) =
     (if in_cls c x
      then (case match_here (Star c # p) xs of Some t \<Rightarrow> Some t
            | None \<Rightarrow> match_here p (x # xs))
      else match_here p (x # xs))"

text \<open>
  \<^verbatim>\<open>pattern.findall(s)\<close> for a pattern without groups: the matched texts, scanning from
  the left and going on after each match. After an empty match the scan moves one
  character on; none of the patterns below matches the empty string.
\<close>

fun findall :: "item list \<Rightarrow> string \<Rightarrow> string list" where
  "findall p [] = (case match_here p [] of Some t \<Rightarrow> [[]] | None \<Rightarrow> [])"
| "findall p (x # xs) =
     (case match_here p (x # xs) of
        None \<Rightarrow> findall p xs
      | Some t \<Rightarrow>
          (let n = length (x # xs) - length t
           in take n (x # xs) # findall p (drop (n - 1) xs)))"

text \<open>The five patterns of lines 188 to 207, in the order of the source.\<close>

definition signed_decimal :: "item list" where
  "signed_decimal = [Opt (Lit CHR ''-''), Plus Digit, Opt (Lit CHR ''.''), Star Digit]"

definition p :: "item list" where
  "p = [One (Lit CHR ''(''), Star (NotLit CHR ''=''), One (Lit CHR ''=''), One Space]
       @ signed_decimal
       @ [Plus (Lit CHR ''-''), Plus Digit, Opt (Lit CHR ''.''), Star Digit,
          One (Lit CHR '')'')]"

definition pAtt :: "item list" where
  "pAtt = [One (Lit CHR ''(''), Star (NotLit CHR ''=''), One (Lit CHR ''='')]"

definition pRange :: "item list" where
  "pRange = [One (Lit CHR ''=''), One Space]
       @ signed_decimal
       @ [Plus (Lit CHR ''-''), Plus Digit, Opt (Lit CHR ''.''), Star Digit,
          One (Lit CHR '')'')]"

definition pLrng :: "item list" where
  "pLrng = signed_decimal"

definition pRrng :: "item list" where
  "pRrng = signed_decimal @ [One (Lit CHR '')'')]"

text \<open>
  The body of the inner loop (lines 192 to 213): one match of \<open>p\<close> is rewritten and the
  rewritten text is put into the rule in its place.
\<close>

definition rewrite_range :: "string \<Rightarrow> string \<Rightarrow> string \<Rightarrow> string \<Rightarrow> string \<Rightarrow> string" where
  "rewrite_range m att rng lrng rrng =
     replace m rng (''>= '' @ lrng @ '') AND '' @ att @ ''<= '' @ rrng)"

definition split_match :: "string \<Rightarrow> string \<Rightarrow> error + string" where
  "split_match rule m =
     (case item (findall pAtt m) 0 of
        Inl e \<Rightarrow> Inl e
      | Inr att \<Rightarrow>
         (case item (findall pRange m) 0 of
            Inl e \<Rightarrow> Inl e
          | Inr rng \<Rightarrow>
             (case item (findall pLrng rng) 0 of
                Inl e \<Rightarrow> Inl e
              | Inr lrng \<Rightarrow>
                 (case item (findall pRrng rng) 0 of
                    Inl e \<Rightarrow> Inl e
                  | Inr rrng \<Rightarrow>
                      Inr (replace rule m (rewrite_range m (butlast att) rng lrng rrng))))))"

fun split_matches :: "string \<Rightarrow> string list \<Rightarrow> error + string" where
  "split_matches rule [] = Inr rule"
| "split_matches rule (m # ms) =
     (case split_match rule m of Inl e \<Rightarrow> Inl e | Inr rule' \<Rightarrow> split_matches rule' ms)"

text \<open>Lines 190 to 214 for one rule: the matches are taken from the rule as it comes in.\<close>

definition split_ranges :: "string \<Rightarrow> error + string" where
  "split_ranges rule = split_matches rule (findall p rule)"

section \<open>Tables\<close>

text \<open>
  A pandas \<^verbatim>\<open>DataFrame\<close> as the scripts use it: the number of rows (\<^verbatim>\<open>len(df.index)\<close>)
  and the columns in their order, each with its label, the name of its dtype
  (\<^verbatim>\<open>float64\<close>, \<^verbatim>\<open>int64\<close>, \<^verbatim>\<open>object\<close>, ...) and one cell per row. A missing cell
  (\<^verbatim>\<open>NaN\<close>, \<^verbatim>\<open>None\<close>, SQL \<^verbatim>\<open>NULL\<close>) is \<open>None\<close>. The table is read from an SQL table,
  whose column labels are distinct.
\<close>

datatype val = Num rat | Str string

type_synonym cell = "val option"

record column =
  cname :: string
  dtype :: string
  cells :: "cell list"

record dataframe =
  nrows :: nat
  columns :: "column list"

definition wf_dataframe :: "dataframe \<Rightarrow> bool" where
  "wf_dataframe df \<longleftrightarrow>
     distinct (map cname (columns df)) \<and>
     (\<forall>c \<in> set (columns df). length (cells c) = nrows df)"

text \<open>\<^verbatim>\<open>df[name]\<close>: the column with that label, \<^verbatim>\<open>KeyError\<close> when there is none.\<close>

definition getitem :: "dataframe \<Rightarrow> string \<Rightarrow> error + column" where
  "getitem df n =
     (case find (\<lambda>c. cname c = n) (columns df) of
        None \<Rightarrow> Inl KeyError
      | Some c \<Rightarrow> Inr c)"

text \<open>
  \<^verbatim>\<open>Series.unique()\<close>: the values in the order of their first occurrence, a missing value
  among them. \<^verbatim>\<open>Series.nunique()\<close>: the number of distinct values that are not missing.
\<close>

fun unique :: "'a list \<Rightarrow> 'a list" where
  "unique [] = []"
| "unique (x # xs) = x # unique (filter (\<lambda>y. y \<noteq> x) xs)"

definition notna :: "cell \<Rightarrow> bool" where
  "notna v \<longleftrightarrow> v \<noteq> None"

definition nunique :: "cell list \<Rightarrow> nat" where
  "nunique vs = length (unique (filter notna vs))"

text \<open>\<^verbatim>\<open>df.drop(labels, axis='columns')\<close>: \<^verbatim>\<open>KeyError\<close> when a label is not a column.\<close>

definition drop_column :: "dataframe \<Rightarrow> string \<Rightarrow> error + dataframe" where
  "drop_column df n =
     (if n \<in> set (map cname (columns df))
      then Inr (df\<lparr>columns := filter (\<lambda>c. cname c \<noteq> n) (columns df)\<rparr>)
      else Inl KeyError)"

text \<open>
  \<^verbatim>\<open>df.dropna(axis='columns', thresh=th)\<close> keeps the columns with at least \<open>th\<close> cells that
  are not missing.
\<close>

definition notna_count :: "column \<Rightarrow> nat" where
  "notna_count c = length (filter notna (cells c))"

definition dropna_columns :: "dataframe \<Rightarrow> int \<Rightarrow> dataframe" where
  "dropna_columns df th = df\<lparr>columns := filter (\<lambda>c. th \<le> int (notna_count c)) (columns df)\<rparr>"

text \<open>
  \<^verbatim>\<open>df.dropna(subset=[name])\<close> keeps the rows in which the column \<open>name\<close> is not missing:
  \<open>keep_rows keep\<close> takes from every column the cells of the rows that \<open>keep\<close> marks.
\<close>

definition keep_rows :: "bool list \<Rightarrow> 'a list \<Rightarrow> 'a list" where
  "keep_rows keep xs = map snd (filter fst (zip keep xs))"

definition dropna_subset :: "dataframe \<Rightarrow> string \<Rightarrow> error + dataframe" where
  "dropna_subset df n =
     (case getitem df n of
        Inl e \<Rightarrow> Inl e
      | Inr c \<Rightarrow>
         (let keep = map notna (cells c)
          in Inr \<lparr>nrows = length (filter id keep),
                  columns = map (\<lambda>d. d\<lparr>cells := keep_rows keep (cells d)\<rparr>) (columns df)\<rparr>))"

section \<open>lib.py\<close>

text \<open>\<^verbatim>\<open>get_class_attr\<close> (line 28): \<^verbatim>\<open>df.columns[-2]\<close>.\<close>

definition get_class_attr :: "dataframe \<Rightarrow> error + string" where
  "get_class_attr df =
     (let n = length (columns df)
      in if 2 \<le> n then Inr (cname (columns df ! (n - 2))) else Inl IndexError)"

text \<open>\<^verbatim>\<open>is_binary\<close> (line 31), on a column.\<close>

definition is_binary :: "column \<Rightarrow> bool" where
  "is_binary attr \<longleftrightarrow> nunique (cells attr) \<le> 2"

text \<open>
  \<^verbatim>\<open>clear_numeric_nan\<close> (line 55). The loop runs over the labels that \<open>df\<close> has when it
  starts; the body looks the label up in the table as it is by then. The messages that
  the function prints are a report for the reader of the log and are left out.
\<close>

fun clear_numeric_nan_loop :: "string list \<Rightarrow> dataframe \<Rightarrow> error + dataframe" where
  "clear_numeric_nan_loop [] df = Inr df"
| "clear_numeric_nan_loop (column_name # rest) df =
     (case getitem df column_name of
        Inl e \<Rightarrow> Inl e
      | Inr c \<Rightarrow>
         (if dtype c = ''float64''
          then (case dropna_subset df column_name of
                  Inl e \<Rightarrow> Inl e
                | Inr na_free \<Rightarrow> clear_numeric_nan_loop rest na_free)
          else clear_numeric_nan_loop rest df))"

definition clear_numeric_nan :: "dataframe \<Rightarrow> error + dataframe" where
  "clear_numeric_nan df = clear_numeric_nan_loop (map cname (columns df)) df"

text \<open>
  \<^verbatim>\<open>clean_dataframe\<close> (line 43). \<open>column_threshold cp n\<close> is line 44 for a table of \<open>n\<close> rows,
  \<^verbatim>\<open>mt.ceil((1-cp)*len(df.index))\<close>: the difference and the product are rounded to doubles.
  \<open>clean_dataframe_thresh\<close> is the function from line 46 on. The messages that it prints
  are left out, as for \<^verbatim>\<open>clear_numeric_nan\<close>.
\<close>

definition column_threshold :: "double \<Rightarrow> nat \<Rightarrow> error + int" where
  "column_threshold cp n =
     (case float_of_nat n of
        Inl e \<Rightarrow> Inl e
      | Inr rows \<Rightarrow> ceil (float_mul (float_sub (Finite 1) cp) rows))"

definition clean_dataframe_thresh :: "dataframe \<Rightarrow> int \<Rightarrow> error + dataframe" where
  "clean_dataframe_thresh df th = clear_numeric_nan (dropna_columns df th)"

definition clean_dataframe :: "dataframe \<Rightarrow> double \<Rightarrow> error + dataframe" where
  "clean_dataframe df cp =
     (case column_threshold cp (nrows df) of
        Inl e \<Rightarrow> Inl e
      | Inr th \<Rightarrow> clean_dataframe_thresh df th)"

text \<open>
  \<^verbatim>\<open>replace_words\<close> (line 77). A Python dictionary keeps its keys in the order of their
  insertion, so it is a list of pairs, and \<open>setitem\<close> is \<^verbatim>\<open>d[k] = v\<close>.
\<close>

fun setitem :: "('k \<times> 'v) list \<Rightarrow> 'k \<Rightarrow> 'v \<Rightarrow> ('k \<times> 'v) list" where
  "setitem [] k v = [(k, v)]"
| "setitem ((k', v') # d) k v = (if k' = k then (k, v) # d else (k', v') # setitem d k v)"

text \<open>
  The values of a dictionary are cells, since the scripts also store values of a table in
  one; \<^verbatim>\<open>s.replace(k, v)\<close> raises \<^verbatim>\<open>TypeError\<close> for a \<open>v\<close> that is not a string.
\<close>

fun replace_words :: "string \<Rightarrow> (string \<times> cell) list \<Rightarrow> error + string" where
  "replace_words s [] = Inr s"
| "replace_words s ((k, v) # words) =
     (case v of
        Some (Str t) \<Rightarrow> replace_words (replace s k t) words
      | _ \<Rightarrow> Inl TypeError)"

text \<open>A dictionary all of whose values are strings.\<close>

definition str_valued :: "(string \<times> cell) list \<Rightarrow> bool" where
  "str_valued d \<longleftrightarrow> (\<forall>v \<in> snd ` set d. \<exists>t. v = Some (Str t))"

subsection \<open>tree\_to\_ruleset\<close>

text \<open>
  The fitted tree \<^verbatim>\<open>decision_tree.tree_\<close> holds its nodes in parallel arrays. A node whose
  \<^verbatim>\<open>feature\<close> is \<^verbatim>\<open>TREE_UNDEFINED\<close> is a leaf; \<open>Leaf v\<close> carries \<^verbatim>\<open>value[node].T[0]\<close>, the
  weight of the samples of the class coded 0 at that leaf. Any other node is
  \<open>Split i thr l r\<close> with \<open>i\<close> its entry of \<^verbatim>\<open>feature\<close>, \<open>thr\<close> the text that \<^verbatim>\<open>format\<close>
  writes for its entry of \<^verbatim>\<open>threshold\<close>, and \<open>l\<close>, \<open>r\<close> the trees at \<^verbatim>\<open>children_left\<close> and
  \<^verbatim>\<open>children_right\<close>.

  \<open>features\<close> is the list of the pairs (name, type). \<open>class_attr_domain\<close> is a list of
  strings. \<open>domain_decode\<close> gives for the name of a categorical attribute the pair of the
  texts that \<^verbatim>\<open>format\<close> writes for the values under its keys 0 and 1.
\<close>

datatype tree = Leaf rat | Split nat string tree tree

fun split_features :: "tree \<Rightarrow> nat list" where
  "split_features (Leaf v) = []"
| "split_features (Split i thr l r) = i # split_features l @ split_features r"

text \<open>
  \<^verbatim>\<open>print_rule\<close> (line 130): the two \<^verbatim>\<open>pop\<close> calls take the consequent and the last
  antecedent from the end, and fail on a list that has run empty. The result is the line
  that is printed.
\<close>

definition print_rule :: "string list \<Rightarrow> error + string" where
  "print_rule rule =
     (case rev rule of
        [] \<Rightarrow> Inl IndexError
      | [consequent] \<Rightarrow> Inl IndexError
      | consequent # last_antecedent # others \<Rightarrow>
          Inr (concat (map (\<lambda>antecedent. antecedent @ '' AND '') (rev others))
               @ last_antecedent @ '' => '' @ consequent))"

text \<open>
  What a call of \<^verbatim>\<open>recurse\<close> does is the list of the lines it has printed and the error
  that has stopped it, if any. \<open>and_then\<close> runs a second call after a first one.
\<close>

type_synonym printed = "string list \<times> error option"

definition and_then :: "printed \<Rightarrow> printed \<Rightarrow> printed" where
  "and_then a b = (case snd a of Some e \<Rightarrow> a | None \<Rightarrow> (fst a @ fst b, snd b))"

definition numeric_left :: "string \<Rightarrow> string \<Rightarrow> string" where
  "numeric_left name threshold = ''('' @ name @ '' <= '' @ threshold @ '')''"

definition numeric_right :: "string \<Rightarrow> string \<Rightarrow> string" where
  "numeric_right name threshold = ''('' @ name @ '' > '' @ threshold @ '')''"

definition categorical :: "string \<Rightarrow> string \<Rightarrow> string" where
  "categorical name v = ''('' @ name @ '' = '' @ v @ '')''"

definition untranslatable :: "string \<Rightarrow> string \<Rightarrow> error" where
  "untranslatable name type =
     Exit (''Error: couldn'' @ [CHR 0x27] @ ''t translate attribute '' @ name
           @ '' of type '' @ type @ ''.'' @ [CHR 0x0A])"

text \<open>\<^verbatim>\<open>recurse\<close> (line 153), without its counter \<^verbatim>\<open>depth\<close>, which it only passes on.\<close>

fun recurse ::
  "(string \<times> string) list \<Rightarrow> string list \<Rightarrow> (string \<times> string \<times> string) list
     \<Rightarrow> tree \<Rightarrow> string list \<Rightarrow> printed" where
  "recurse features class_attr_domain domain_decode (Leaf v) antecedents =
     (case (if v \<noteq> 0 then item class_attr_domain 0 else item class_attr_domain 1) of
        Inl e \<Rightarrow> ([], Some e)
      | Inr consequent \<Rightarrow>
         (case print_rule (antecedents @ [consequent]) of
            Inl e \<Rightarrow> ([], Some e)
          | Inr line \<Rightarrow> ([line], None)))"
| "recurse features class_attr_domain domain_decode (Split i threshold l r) antecedents =
     (let name = fst (features ! i); type = snd (features ! i)
      in if type = ''float64''
         then and_then
                (recurse features class_attr_domain domain_decode l
                   (antecedents @ [numeric_left name threshold]))
                (recurse features class_attr_domain domain_decode r
                   (antecedents @ [numeric_right name threshold]))
         else if type = ''int64''
         then (case map_of domain_decode name of
                 None \<Rightarrow> ([], Some KeyError)
               | Some (v0, v1) \<Rightarrow>
                   and_then
                     (recurse features class_attr_domain domain_decode l
                        (antecedents @ [categorical name v0]))
                     (recurse features class_attr_domain domain_decode r
                        (antecedents @ [categorical name v1])))
         else ([], Some (untranslatable name type)))"

text \<open>
  \<^verbatim>\<open>tree_to_ruleset\<close> (line 97). The lists \<^verbatim>\<open>feature_name\<close> and \<^verbatim>\<open>feature_type\<close> are built
  for all nodes before the walk starts, so an index that \<open>features\<close> does not have stops
  the function before it prints.
\<close>

definition tree_to_ruleset ::
  "tree \<Rightarrow> (string \<times> string) list \<Rightarrow> string list \<Rightarrow> (string \<times> string \<times> string) list
     \<Rightarrow> printed" where
  "tree_to_ruleset decision_tree features class_attr_domain domain_decode =
     (if \<forall>i \<in> set (split_features decision_tree). i < length features
      then recurse features class_attr_domain domain_decode decision_tree []
      else ([], Some IndexError))"

text \<open>
  The leaves of a tree from left to right, as a depth-first walk that takes the left child
  first meets them, and for each leaf the antecedents on the way to it from the root.
  \<open>rule_text\<close> is the line for a list of antecedents, of which there is at least one, and a
  consequent.
\<close>

fun leaves :: "tree \<Rightarrow> rat list" where
  "leaves (Leaf v) = [v]"
| "leaves (Split i threshold l r) = leaves l @ leaves r"

definition branch_antecedents ::
  "(string \<times> string) list \<Rightarrow> (string \<times> string \<times> string) list \<Rightarrow> nat \<Rightarrow> string
     \<Rightarrow> string \<times> string" where
  "branch_antecedents features domain_decode i threshold =
     (let name = fst (features ! i)
      in if snd (features ! i) = ''float64''
         then (numeric_left name threshold, numeric_right name threshold)
         else (case map_of domain_decode name of
                 None \<Rightarrow> ([], [])
               | Some (v0, v1) \<Rightarrow> (categorical name v0, categorical name v1)))"

fun paths ::
  "(string \<times> string) list \<Rightarrow> (string \<times> string \<times> string) list \<Rightarrow> tree \<Rightarrow> string list
     \<Rightarrow> (string list \<times> rat) list" where
  "paths features domain_decode (Leaf v) antecedents = [(antecedents, v)]"
| "paths features domain_decode (Split i threshold l r) antecedents =
     paths features domain_decode l
       (antecedents @ [fst (branch_antecedents features domain_decode i threshold)])
     @ paths features domain_decode r
       (antecedents @ [snd (branch_antecedents features domain_decode i threshold)])"

definition rule_text :: "string list \<Rightarrow> string \<Rightarrow> string" where
  "rule_text antecedents consequent =
     concat (map (\<lambda>a. a @ '' AND '') (butlast antecedents))
     @ last antecedents @ '' => '' @ consequent"

text \<open>
  The lines for the leaves of a tree from left to right: the antecedents of the way to the
  leaf, and \<open>class_attr_domain[1]\<close> for a leaf whose value is 0, \<open>class_attr_domain[0]\<close>
  for any other.
\<close>

definition leaf_rules ::
  "(string \<times> string) list \<Rightarrow> string list \<Rightarrow> (string \<times> string \<times> string) list \<Rightarrow> tree
     \<Rightarrow> string list \<Rightarrow> string list" where
  "leaf_rules features class_attr_domain domain_decode t antecedents =
     map (\<lambda>(as, v). rule_text as (if v = 0 then class_attr_domain ! 1 else class_attr_domain ! 0))
       (paths features domain_decode t antecedents)"

text \<open>
  A tree is supported when each of its splits is on an attribute of type \<^verbatim>\<open>float64\<close>, or of
  type \<^verbatim>\<open>int64\<close> with an entry in \<open>domain_decode\<close>.
\<close>

fun supported ::
  "(string \<times> string) list \<Rightarrow> (string \<times> string \<times> string) list \<Rightarrow> tree \<Rightarrow> bool" where
  "supported features domain_decode (Leaf v) = True"
| "supported features domain_decode (Split i threshold l r) =
     (i < length features
      \<and> (snd (features ! i) = ''float64''
         \<or> snd (features ! i) = ''int64''
           \<and> map_of domain_decode (fst (features ! i)) \<noteq> None)
      \<and> supported features domain_decode l
      \<and> supported features domain_decode r)"

section \<open>The class attribute in both scripts\<close>

text \<open>
  The swap of lines 105 to 108 of \<^verbatim>\<open>wittgenstein_learner.py\<close> and 134 to 137 of
  \<^verbatim>\<open>sklearn_learner.py\<close>. The index 1 fails on a domain with fewer than two values, and
  \<^verbatim>\<open>startswith\<close> is a method of strings only.
\<close>

definition order_class_attr_domain :: "cell list \<Rightarrow> error + cell list" where
  "order_class_attr_domain class_attr_domain =
     (case item class_attr_domain 1 of
        Inl e \<Rightarrow> Inl e
      | Inr v \<Rightarrow>
         (case v of
            Some (Str s) \<Rightarrow>
              (if startswith s ''NO_''
               then Inr (class_attr_domain[0 := class_attr_domain ! 1, 1 := class_attr_domain ! 0])
               else Inr class_attr_domain)
          | _ \<Rightarrow> Inl AttributeError))"

text \<open>
  Lines 95 to 108 of \<^verbatim>\<open>wittgenstein_learner.py\<close>, on the column of the class attribute: the
  check that it is binary, and its domain in the order (negative, positive).
\<close>

definition wittgenstein_class_attr_domain :: "column \<Rightarrow> error + cell list" where
  "wittgenstein_class_attr_domain c =
     (if \<not> is_binary c then Inl (Exit ''Error: class attribute is not binary'')
      else order_class_attr_domain (unique (cells c)))"

text \<open>Lines 94 to 108: the class attribute is taken from the table as it is read.\<close>

definition wittgenstein_class :: "dataframe \<Rightarrow> error + string \<times> cell list" where
  "wittgenstein_class train =
     (case get_class_attr train of
        Inl e \<Rightarrow> Inl e
      | Inr class_attr \<Rightarrow>
         (case getitem train class_attr of
            Inl e \<Rightarrow> Inl e
          | Inr c \<Rightarrow>
             (case wittgenstein_class_attr_domain c of
                Inl e \<Rightarrow> Inl e
              | Inr class_attr_domain \<Rightarrow> Inr (class_attr, class_attr_domain))))"


text \<open>
  Lines 127 to 137 of \<^verbatim>\<open>sklearn_learner.py\<close>: the domain of \<^verbatim>\<open>y_train\<close>, the check of its
  length, and the swap.
\<close>

definition sklearn_class_attr_domain :: "column \<Rightarrow> error + cell list" where
  "sklearn_class_attr_domain y_train =
     (let class_attr_domain = unique (cells y_train)
      in if length class_attr_domain < 2
         then Inl (Exit ''Error: class attribute domain must have two values'')
         else order_class_attr_domain class_attr_domain)"

section \<open>wittgenstein\_learner.py\<close>

text \<open>Lines 116 to 121: the tokens of the attributes, and the counter after the loop.\<close>

fun attribute_encode_loop ::
  "string list \<Rightarrow> nat \<Rightarrow> (string \<times> string) list \<Rightarrow> (string \<times> string) list \<times> nat" where
  "attribute_encode_loop [] i attribute_encode = (attribute_encode, i)"
| "attribute_encode_loop (attribute # rest) i attribute_encode =
     attribute_encode_loop rest (i + 1)
       (setitem attribute_encode attribute (''X'' @ str i @ ''X''))"

text \<open>\<^verbatim>\<open>a + v\<close> for a string \<open>a\<close>: \<^verbatim>\<open>TypeError\<close> when \<open>v\<close> is not a string.\<close>

definition concat_str :: "string \<Rightarrow> cell \<Rightarrow> error + string" where
  "concat_str a v = (case v of Some (Str t) \<Rightarrow> Inr (a @ t) | _ \<Rightarrow> Inl TypeError)"

text \<open>
  Lines 123 to 132: the dictionary turned round, then the seven entries for the operators
  and brackets, of which the one for \<^verbatim>\<open>V\<close> holds \<^verbatim>\<open>class_attr_domain[1]\<close>.
\<close>

fun invert_dict :: "(string \<times> string) list \<Rightarrow> (string \<times> cell) list \<Rightarrow> (string \<times> cell) list" where
  "invert_dict [] d = d"
| "invert_dict ((k, v) # rest) d = invert_dict rest (setitem d v (Some (Str k)))"

definition structural_entries :: "string \<Rightarrow> (string \<times> cell) list" where
  "structural_entries positive =
     [('' ^ '', Some (Str '') AND ('')),
      (''='', Some (Str '' = '')),
      (''V'', Some (Str (''=> '' @ positive @ [CHR 0x0A]))),
      (''[['', Some (Str ''('')),
      ('']]'', Some (Str '')'')),
      (''['', Some (Str ''('')),
      ('']'', Some (Str '')''))]"

definition add_entries :: "(string \<times> cell) list \<Rightarrow> (string \<times> cell) list \<Rightarrow> (string \<times> cell) list" where
  "add_entries d entries = foldl (\<lambda>d' (k, v). setitem d' k v) d entries"

definition make_attribute_decode ::
  "(string \<times> string) list \<Rightarrow> cell list \<Rightarrow> error + (string \<times> cell) list" where
  "make_attribute_decode attribute_encode class_attr_domain =
     (case item class_attr_domain 1 of
        Inl e \<Rightarrow> Inl e
      | Inr v \<Rightarrow>
         (case concat_str [] v of
            Inl e \<Rightarrow> Inl e
          | Inr positive \<Rightarrow>
              Inr (add_entries (invert_dict attribute_encode []) (structural_entries positive))))"

text \<open>
  Lines 136 to 147. \<^verbatim>\<open>train[attribute] = ...\<close> puts new cells into a column;
  the loop runs over the labels that \<open>train\<close> has when it starts.
\<close>

definition set_cells :: "dataframe \<Rightarrow> string \<Rightarrow> cell list \<Rightarrow> dataframe" where
  "set_cells df n vs =
     df\<lparr>columns := map (\<lambda>c. if cname c = n then c\<lparr>cells := vs\<rparr> else c) (columns df)\<rparr>"

definition encode_domain ::
  "string \<Rightarrow> column \<Rightarrow> dataframe \<Rightarrow> nat \<Rightarrow> (string \<times> cell) list
     \<Rightarrow> error + dataframe \<times> nat \<times> (string \<times> cell) list" where
  "encode_domain attribute c train i domain_decode =
     (case item (unique (cells c)) 0 of
        Inl e \<Rightarrow> Inl e
      | Inr d0 \<Rightarrow>
         (case item (unique (cells c)) 1 of
            Inl e \<Rightarrow> Inl e
          | Inr d1 \<Rightarrow>
             (let x = ''X'' @ str i @ ''X''; y = ''Y'' @ str i @ ''Y''
              in Inr (set_cells train attribute
                        (map (\<lambda>v. Some (Str (if v = d1 then y else x))) (cells c)),
                      i + 1,
                      setitem (setitem domain_decode x d0) y d1))))"

definition domain_decode_step ::
  "string \<Rightarrow> string \<Rightarrow> dataframe \<Rightarrow> nat \<Rightarrow> (string \<times> cell) list
     \<Rightarrow> error + dataframe \<times> nat \<times> (string \<times> cell) list" where
  "domain_decode_step attribute class_attr train i domain_decode =
     (case getitem train attribute of
        Inl e \<Rightarrow> Inl e
      | Inr c \<Rightarrow>
         (if dtype c = ''object''
          then (if nunique (cells c) < 2
                then (case drop_column train attribute of
                        Inl e \<Rightarrow> Inl e
                      | Inr train' \<Rightarrow> Inr (train', i, domain_decode))
                else if attribute \<noteq> class_attr
                then encode_domain attribute c train i domain_decode
                else Inr (train, i, domain_decode))
          else Inr (train, i, domain_decode)))"

fun domain_decode_loop ::
  "string list \<Rightarrow> string \<Rightarrow> dataframe \<times> nat \<times> (string \<times> cell) list
     \<Rightarrow> error + dataframe \<times> nat \<times> (string \<times> cell) list" where
  "domain_decode_loop [] class_attr state = Inr state"
| "domain_decode_loop (attribute # rest) class_attr (train, i, domain_decode) =
     (case domain_decode_step attribute class_attr train i domain_decode of
        Inl e \<Rightarrow> Inl e
      | Inr state' \<Rightarrow> domain_decode_loop rest class_attr state')"

text \<open>\<^verbatim>\<open>train.rename(columns=attribute_encode)\<close> (line 149).\<close>

definition rename :: "dataframe \<Rightarrow> (string \<times> string) list \<Rightarrow> dataframe" where
  "rename df d =
     df\<lparr>columns := map (\<lambda>c. case map_of d (cname c) of None \<Rightarrow> c
                              | Some n \<Rightarrow> c\<lparr>cname := n\<rparr>) (columns df)\<rparr>"

text \<open>
  Lines 151 to 178. The learners of the \<^verbatim>\<open>wittgenstein\<close> package are not part of the
  program: \<open>learner\<close> stands for fitting the named classifier on the table, with the class
  feature and the positive class it is given, and for the lines that \<^verbatim>\<open>out_model\<close> prints.
\<close>

type_synonym learner = "string \<Rightarrow> dataframe \<Rightarrow> string \<Rightarrow> cell \<Rightarrow> error + string list"

definition fit_out_model ::
  "learner \<Rightarrow> string \<Rightarrow> dataframe \<Rightarrow> (string \<times> string) list \<Rightarrow> string \<Rightarrow> cell list
     \<Rightarrow> error + string list" where
  "fit_out_model learn classifier train attribute_encode class_attr class_attr_domain =
     (if classifier = ''RIPPERk'' \<or> classifier = ''IREP''
      then (case map_of attribute_encode class_attr of
              None \<Rightarrow> Inl KeyError
            | Some class_feat \<Rightarrow>
               (case item class_attr_domain (if classifier = ''RIPPERk'' then 0 else 1) of
                  Inl e \<Rightarrow> Inl e
                | Inr pos_class \<Rightarrow> learn classifier train class_feat pos_class))
      else Inl (Exit (''Error: the specified classifier is invalid. ''
                      @ ''Please choose between RIPPERk and IREP.'')))"

text \<open>Lines 181 to 185 and 189 to 214: the two passes over the list of the rules.\<close>

definition decode_rule :: "(string \<times> cell) list \<Rightarrow> (string \<times> cell) list \<Rightarrow> string \<Rightarrow> error + string" where
  "decode_rule attribute_decode domain_decode rule =
     (case replace_words rule attribute_decode of
        Inl e \<Rightarrow> Inl e
      | Inr rule' \<Rightarrow> replace_words rule' domain_decode)"

fun for_each :: "('a \<Rightarrow> error + 'b) \<Rightarrow> 'a list \<Rightarrow> error + 'b list" where
  "for_each f [] = Inr []"
| "for_each f (x # xs) =
     (case f x of
        Inl e \<Rightarrow> Inl e
      | Inr y \<Rightarrow> (case for_each f xs of Inl e \<Rightarrow> Inl e | Inr ys \<Rightarrow> Inr (y # ys)))"

text \<open>Line 219, for one rule.\<close>

definition adjust :: "string \<Rightarrow> error + string" where
  "adjust rule = replace_words rule [(''< = '', Some (Str ''<='')), (''> = '', Some (Str ''>=''))]"

text \<open>
  The three passes as one rule goes through them: the substitution of lines 183 and 184,
  the splitting of the ranges, and the adjustment of line 219.
\<close>

definition normalize_rule ::
  "(string \<times> cell) list \<Rightarrow> (string \<times> cell) list \<Rightarrow> string \<Rightarrow> error + string" where
  "normalize_rule attribute_decode domain_decode rule =
     (case decode_rule attribute_decode domain_decode rule of
        Inl e \<Rightarrow> Inl e
      | Inr rule1 \<Rightarrow>
         (case split_ranges rule1 of
            Inl e \<Rightarrow> Inl e
          | Inr rule2 \<Rightarrow> adjust rule2))"

text \<open>
  The texts in which every \<^verbatim>\<open>=\<close> belongs to a comparison as the splitting of the ranges
  writes it: it stands right after a \<^verbatim>\<open><\<close> or a \<^verbatim>\<open>>\<close> and a blank follows it.
\<close>

fun comparison_only :: "string \<Rightarrow> bool" where
  "comparison_only [] = True"
| "comparison_only [c] = (c \<noteq> CHR ''='')"
| "comparison_only (c # d # ds) =
     (c \<noteq> CHR ''=''
      \<and> (if d = CHR ''=''
         then (c = CHR ''<'' \<or> c = CHR ''>'') \<and> startswith ds '' '' \<and> comparison_only ds
         else comparison_only (d # ds)))"

text \<open>The texts in which two blanks follow every \<^verbatim>\<open>=\<close>.\<close>

fun two_blanks_follow :: "string \<Rightarrow> bool" where
  "two_blanks_follow [] = True"
| "two_blanks_follow (c # cs) =
     ((if c = CHR ''='' then startswith cs ''  '' else True) \<and> two_blanks_follow cs)"

text \<open>
  Lines 217 to 223: the text written to the standard output, and the error that stops the
  writing, if any.
\<close>

definition header :: string where
  "header = ''extracted_rule_based_model: ['' @ [CHR 0x0A, CHR 0x0A]"

definition last_line :: "cell list \<Rightarrow> error + string" where
  "last_line class_attr_domain =
     (case item class_attr_domain 1 of
        Inl e \<Rightarrow> Inl e
      | Inr positive \<Rightarrow>
         (case concat_str '' => '' positive of
            Inl e \<Rightarrow> Inl e
          | Inr a \<Rightarrow>
             (case item class_attr_domain 0 of
                Inl e \<Rightarrow> Inl e
              | Inr negative \<Rightarrow>
                 (case concat_str (a @ [CHR 0x0A] @ ''() => '') negative of
                    Inl e \<Rightarrow> Inl e
                  | Inr b \<Rightarrow> Inr (b @ [CHR 0x0A, CHR 0x0A] @ '']'' @ [CHR 0x0A])))))"

definition print_model :: "string list \<Rightarrow> cell list \<Rightarrow> string \<times> error option" where
  "print_model rules class_attr_domain =
     (case for_each adjust rules of
        Inl e \<Rightarrow> (header, Some e)
      | Inr adjusted \<Rightarrow>
         (case last_line class_attr_domain of
            Inl e \<Rightarrow> (header @ concat adjusted, Some e)
          | Inr l \<Rightarrow> (header @ concat adjusted @ l, None)))"

text \<open>
  The script from line 94 on. The report that \<^verbatim>\<open>clean_dataframe\<close> prints before the model
  is not part of the text.
\<close>

definition wittgenstein_tables ::
  "dataframe \<Rightarrow> double \<Rightarrow> string \<Rightarrow> cell list
     \<Rightarrow> error + dataframe \<times> (string \<times> string) list \<times> (string \<times> cell) list \<times> (string \<times> cell) list" where
  "wittgenstein_tables train th class_attr class_attr_domain =
     (case drop_column train ''__ID_piton__'' of
        Inl e \<Rightarrow> Inl e
      | Inr train1 \<Rightarrow>
         (case clean_dataframe train1 th of
            Inl e \<Rightarrow> Inl e
          | Inr train2 \<Rightarrow>
             (let enc = attribute_encode_loop (map cname (columns train2)) 0 []
              in case make_attribute_decode (fst enc) class_attr_domain of
                   Inl e \<Rightarrow> Inl e
                 | Inr attribute_decode \<Rightarrow>
                    (case domain_decode_loop (map cname (columns train2)) class_attr
                            (train2, snd enc, []) of
                       Inl e \<Rightarrow> Inl e
                     | Inr (train3, i, domain_decode) \<Rightarrow>
                         Inr (rename train3 (fst enc), fst enc, attribute_decode,
                              domain_decode)))))"

definition wittgenstein_rules ::
  "learner \<Rightarrow> string \<Rightarrow> dataframe \<Rightarrow> double \<Rightarrow> string \<Rightarrow> cell list \<Rightarrow> error + string list" where
  "wittgenstein_rules learn classifier train th class_attr class_attr_domain =
     (case wittgenstein_tables train th class_attr class_attr_domain of
        Inl e \<Rightarrow> Inl e
      | Inr (train', attribute_encode, attribute_decode, domain_decode) \<Rightarrow>
         (case fit_out_model learn classifier train' attribute_encode class_attr
                 class_attr_domain of
            Inl e \<Rightarrow> Inl e
          | Inr output \<Rightarrow>
             (case for_each (decode_rule attribute_decode domain_decode) output of
                Inl e \<Rightarrow> Inl e
              | Inr rules \<Rightarrow> for_each split_ranges rules)))"

definition wittgenstein_main :: "learner \<Rightarrow> string \<Rightarrow> dataframe \<Rightarrow> double \<Rightarrow> string \<times> error option" where
  "wittgenstein_main learn classifier train th =
     (case wittgenstein_class train of
        Inl e \<Rightarrow> ([], Some e)
      | Inr (class_attr, class_attr_domain) \<Rightarrow>
         (case wittgenstein_rules learn classifier train th class_attr class_attr_domain of
            Inl e \<Rightarrow> ([], Some e)
          | Inr rules \<Rightarrow> print_model rules class_attr_domain))"


section \<open>Facts about the Python values\<close>

lemma item_Inr: "item xs i = Inr x \<Longrightarrow> i < length xs \<and> x = xs ! i"
  by (auto simp: item_def split: if_splits)

lemma contains_Nil: "contains s []"
  by (cases s) simp_all

lemma replace_nonempty_absent: "\<not> contains s old \<Longrightarrow> replace_nonempty old new s = s"
  by (induction s) auto

lemma replace_absent: "\<not> contains s k \<Longrightarrow> replace s k v = s"
  using contains_Nil [of s] by (auto simp: replace_def replace_nonempty_absent)

lemma startswith_set: "startswith s k \<Longrightarrow> set k \<subseteq> set s"
  by (induction s k rule: startswith.induct) auto

lemma contains_set: "contains s k \<Longrightarrow> set k \<subseteq> set s"
proof (induction s)
  case Nil
  then show ?case by simp
next
  case (Cons c cs)
  from Cons.prems have "startswith (c # cs) k \<or> contains cs k" by simp
  then show ?case
  proof
    assume "startswith (c # cs) k"
    then show ?thesis by (rule startswith_set)
  next
    assume "contains cs k"
    then have "set k \<subseteq> set cs" by (rule Cons.IH)
    then show ?thesis by auto
  qed
qed

lemma replace_words_absent:
  "\<forall>k \<in> fst ` set words. \<not> contains s k \<Longrightarrow> str_valued words \<Longrightarrow>
   replace_words s words = Inr s"
proof (induction words)
  case Nil
  show ?case by simp
next
  case (Cons kv words)
  obtain k v where kv: "kv = (k, v)" by (cases kv)
  from Cons.prems(2) kv obtain t where v: "v = Some (Str t)"
    by (auto simp: str_valued_def)
  from Cons.prems(1) kv have "\<not> contains s k" by simp
  then have "replace s k t = s" by (rule replace_absent)
  moreover have "replace_words s words = Inr s"
    using Cons by (simp add: str_valued_def)
  ultimately show ?case by (simp add: kv v)
qed

text \<open>A match of a pattern that asks for a literal character holds that character.\<close>

lemma match_here_lit:
  "match_here q s = Some t \<Longrightarrow> One (Lit c) \<in> set q \<Longrightarrow> c \<in> set s"
  by (induction q s arbitrary: t rule: match_here.induct)
     (auto split: if_splits option.splits)

lemma findall_none:
  "One (Lit c) \<in> set q \<Longrightarrow> c \<notin> set s \<Longrightarrow> findall q s = []"
proof (induction s)
  case Nil
  then have "match_here q [] = None"
    using match_here_lit [of q "[]" _ c] by (cases "match_here q []") auto
  then show ?case by simp
next
  case (Cons x xs)
  then have "match_here q (x # xs) = None"
    using match_here_lit [of q "x # xs" _ c] by (cases "match_here q (x # xs)") auto
  with Cons show ?case by simp
qed

lemma split_ranges_absent: "CHR ''='' \<notin> set s \<Longrightarrow> split_ranges s = Inr s"
  using findall_none [of "CHR ''=''" p s] by (simp add: split_ranges_def p_def)

lemma adjust_absent: "CHR ''='' \<notin> set s \<Longrightarrow> adjust s = Inr s"
proof -
  assume a: "CHR ''='' \<notin> set s"
  have "\<not> contains s ''< = ''" "\<not> contains s ''> = ''"
    using a contains_set [of s "''< = ''"] contains_set [of s "''> = ''"] by auto
  then show ?thesis by (simp add: adjust_def replace_absent)
qed

lemma keys_setitem: "fst ` set (setitem d k v) = insert k (fst ` set d)"
  by (induction d k v rule: setitem.induct) auto

lemma values_setitem: "snd ` set (setitem d k v) \<subseteq> insert v (snd ` set d)"
  by (induction d k v rule: setitem.induct) auto

lemma str_valued_setitem: "str_valued d \<Longrightarrow> str_valued (setitem d k (Some (Str t)))"
  unfolding str_valued_def using values_setitem [of d k "Some (Str t)"] by blast

lemma str_valued_invert: "str_valued d \<Longrightarrow> str_valued (invert_dict e d)"
  by (induction e d rule: invert_dict.induct) (auto simp: str_valued_setitem)

lemma attribute_decode_table:
  assumes "make_attribute_decode enc cad = Inr ad"
  shows "''='' \<in> fst ` set ad" and "str_valued ad"
proof -
  from assms obtain pos where
    ad: "ad = add_entries (invert_dict enc []) (structural_entries pos)"
    by (auto simp: make_attribute_decode_def concat_str_def
             split: sum.splits option.splits val.splits)
  show "''='' \<in> fst ` set ad"
    unfolding ad by (simp add: add_entries_def structural_entries_def keys_setitem)
  have "str_valued (invert_dict enc [])"
    by (rule str_valued_invert) (simp add: str_valued_def)
  then show "str_valued ad"
    unfolding ad by (simp add: add_entries_def structural_entries_def str_valued_setitem)
qed

text \<open>
  The decimal digits of a number hold no \<^verbatim>\<open>X\<close> and determine the number, so the token of
  one counter does not occur in the token of another.
\<close>

lemma str_digits: "set (str n) \<subseteq> set ''0123456789''"
proof (induction n rule: str.induct)
  case (1 n)
  show ?case
  proof (cases "n < 10")
    case True
    then have "''0123456789'' ! n \<in> set ''0123456789''"
      by (intro nth_mem) simp
    with True show ?thesis by (subst str.simps) simp
  next
    case False
    have "''0123456789'' ! (n mod 10) \<in> set ''0123456789''"
      by (intro nth_mem) simp
    with False 1 show ?thesis by (subst str.simps) auto
  qed
qed

lemma str_nonempty: "str n \<noteq> []"
  by (subst str.simps) simp

lemma digit_inj:
  "a < 10 \<Longrightarrow> b < 10 \<Longrightarrow> ''0123456789'' ! a = ''0123456789'' ! b \<Longrightarrow> a = b"
  using nth_eq_iff_index_eq [of "''0123456789''" a b] by simp

lemma str_small: "n < 10 \<Longrightarrow> str n = [''0123456789'' ! n]"
  by (subst str.simps) simp

lemma str_large: "\<not> n < 10 \<Longrightarrow> str n = str (n div 10) @ [''0123456789'' ! (n mod 10)]"
  by (subst str.simps) simp

lemma str_large_length: "\<not> n < 10 \<Longrightarrow> 2 \<le> length (str n)"
proof -
  assume h: "\<not> n < 10"
  have "length (str n) = length (str (n div 10)) + 1"
    by (subst str_large [OF h]) simp
  moreover have "0 < length (str (n div 10))"
    using str_nonempty [of "n div 10"] by simp
  ultimately show ?thesis by linarith
qed

lemma str_inj: "str m = str n \<Longrightarrow> m = n"
proof (induction m arbitrary: n rule: str.induct)
  case (1 m)
  show ?case
  proof (cases "m < 10")
    case True
    have "n < 10"
    proof (rule ccontr)
      assume "\<not> n < 10"
      then have "2 \<le> length (str n)" by (rule str_large_length)
      moreover have "length (str m) = 1" using True by (simp add: str_small)
      ultimately show False using "1.prems" by simp
    qed
    with True "1.prems" have "''0123456789'' ! m = ''0123456789'' ! n"
      by (simp add: str_small)
    with True \<open>n < 10\<close> show ?thesis by (rule digit_inj)
  next
    case False
    have "\<not> n < 10"
    proof
      assume "n < 10"
      then have "length (str n) = 1" by (simp add: str_small)
      moreover have "2 \<le> length (str m)" using False by (rule str_large_length)
      ultimately show False using "1.prems" by simp
    qed
    from "1.prems" have "str (m div 10) @ [''0123456789'' ! (m mod 10)]
        = str (n div 10) @ [''0123456789'' ! (n mod 10)]"
      by (simp only: str_large [OF False, symmetric] str_large [OF \<open>\<not> n < 10\<close>, symmetric])
    then have a: "str (m div 10) = str (n div 10)"
      and b: "''0123456789'' ! (m mod 10) = ''0123456789'' ! (n mod 10)"
      by simp_all
    from "1.IH" [OF False a] have d: "m div 10 = n div 10" .
    from b have e: "m mod 10 = n mod 10"
      by (intro digit_inj) simp_all
    have "m = 10 * (m div 10) + m mod 10" by simp
    also have "\<dots> = 10 * (n div 10) + n mod 10" by (simp only: d e)
    also have "\<dots> = n" by simp
    finally show ?thesis .
  qed
qed

lemma first_occurrence:
  "x \<notin> set a \<Longrightarrow> x \<notin> set b \<Longrightarrow> a @ x # u = b @ x # v \<Longrightarrow> a = b"
proof (induction a arbitrary: b)
  case Nil
  then show ?case by (cases b) auto
next
  case (Cons y a)
  then show ?case by (cases b) auto
qed

lemma startswith_iff: "startswith s k \<longleftrightarrow> (\<exists>post. s = k @ post)"
  by (induction s k rule: startswith.induct) auto

lemma contains_iff: "contains s k \<longleftrightarrow> (\<exists>pre post. s = pre @ k @ post)"
proof (induction s)
  case Nil
  show ?case by auto
next
  case (Cons c cs)
  show ?case
  proof
    assume "contains (c # cs) k"
    then consider "startswith (c # cs) k" | "contains cs k" by auto
    then show "\<exists>pre post. c # cs = pre @ k @ post"
    proof cases
      case 1
      then obtain post where "c # cs = k @ post" by (auto simp: startswith_iff)
      then have "c # cs = [] @ k @ post" by simp
      then show ?thesis by blast
    next
      case 2
      with Cons obtain pre post where "cs = pre @ k @ post" by blast
      then have "c # cs = (c # pre) @ k @ post" by simp
      then show ?thesis by blast
    qed
  next
    assume "\<exists>pre post. c # cs = pre @ k @ post"
    then obtain pre post where e: "c # cs = pre @ k @ post" by blast
    show "contains (c # cs) k"
    proof (cases pre)
      case Nil
      with e have "startswith (c # cs) k" by (auto simp: startswith_iff)
      then show ?thesis by simp
    next
      case (Cons a pre')
      with e have "cs = pre' @ k @ post" by simp
      with Cons.IH have "contains cs k" by blast
      then show ?thesis by simp
    qed
  qed
qed

lemma token_inside:
  assumes x1: "CHR ''X'' \<notin> set d1" and x2: "CHR ''X'' \<notin> set d2"
    and c: "contains (''X'' @ d2 @ ''X'') (''X'' @ d1 @ ''X'')"
  shows "d1 = d2"
proof -
  from c obtain pre post where e: "''X'' @ d2 @ ''X'' = pre @ (''X'' @ d1 @ ''X'') @ post"
    by (auto simp: contains_iff)
  have cnt: "length (filter (\<lambda>ch. ch = CHR ''X'') (''X'' @ d2 @ ''X'')) = 2"
    using x2 by (auto simp: filter_empty_conv)
  have "length (filter (\<lambda>ch. ch = CHR ''X'') (pre @ (''X'' @ d1 @ ''X'') @ post))
        = length (filter (\<lambda>ch. ch = CHR ''X'') pre) + 2 + length (filter (\<lambda>ch. ch = CHR ''X'') post)"
    using x1 by (auto simp: filter_empty_conv)
  with e cnt have "filter (\<lambda>ch. ch = CHR ''X'') pre = []" by simp
  then have px: "CHR ''X'' \<notin> set pre" by (auto simp: filter_empty_conv)
  have "pre = []"
  proof (cases pre)
    case Nil then show ?thesis .
  next
    case (Cons a pre')
    with e have "a = CHR ''X''" by simp
    with Cons px show ?thesis by simp
  qed
  with e have "d2 @ ''X'' = d1 @ ''X'' @ post" by simp
  then have "d2 @ [CHR ''X''] = d1 @ CHR ''X'' # post" by simp
  with x1 x2 show ?thesis
    using first_occurrence [of "CHR ''X''" d1 d2 post "[]"] by simp
qed

lemma tokens_do_not_overlap:
  assumes "i \<noteq> j"
  shows "\<not> contains (''X'' @ str j @ ''X'') (''X'' @ str i @ ''X'')"
proof
  assume "contains (''X'' @ str j @ ''X'') (''X'' @ str i @ ''X'')"
  moreover have "CHR ''X'' \<notin> set (str i)" "CHR ''X'' \<notin> set (str j)"
    using str_digits [of i] str_digits [of j] by auto
  ultimately have "str i = str j" by (rule token_inside [rotated 2])
  with assms show False by (auto dest: str_inj)
qed


text \<open>
  Line 44 at some thresholds. With the double that is nearest to 0.3 and ten rows the
  difference is rounded to the double below 0.7 and the product to 7, where the exact
  product is above 7.
\<close>

lemma round_double_small:
  "round_double (1 / 2) = Finite (1 / 2)"
  "round_double 1 = Finite 1"
  "round_double 2 = Finite 2"
  by code_simp+

lemma ceiling_half: "\<lceil>1 / 2 :: rat\<rceil> = 1"
  by (rule ceiling_unique) simp_all

lemma threshold_half_2: "column_threshold (Finite (1 / 2)) 2 = Inr 1"
  by (simp add: column_threshold_def float_of_nat_def round_double_small ceil_def)

lemma threshold_half_1: "column_threshold (Finite (1 / 2)) (Suc 0) = Inr 1"
  by (simp add: column_threshold_def float_of_nat_def round_double_small ceil_def ceiling_half)

lemma round_double_three_tenths:
  "round_double (3 / 10) = Finite (5404319552844595 / 18014398509481984)"
  "round_double (1 - 5404319552844595 / 18014398509481984)
     = Finite (3152519739159347 / 4503599627370496)"
  "round_double (3152519739159347 / 4503599627370496 * 10) = Finite 7"
  "round_double 10 = Finite 10"
  by code_simp+

lemma threshold_three_tenths:
  "column_threshold (Finite (5404319552844595 / 18014398509481984)) 10 = Inr 7"
  "\<lceil>(1 - 5404319552844595 / 18014398509481984 :: rat) * of_nat 10\<rceil> = 8"
proof -
  show "column_threshold (Finite (5404319552844595 / 18014398509481984)) 10 = Inr 7"
    using round_double_three_tenths by (simp add: column_threshold_def float_of_nat_def ceil_def)
  show "\<lceil>(1 - 5404319552844595 / 18014398509481984 :: rat) * of_nat 10\<rceil> = 8"
    by (rule ceiling_unique) simp_all
qed

section \<open>Facts about the passes of the normalizer\<close>

text \<open>
  Below, \<open>replace_nonempty ''='' '' = '' s\<close> is the text \<open>s\<close> after the entry for \<^verbatim>\<open>=\<close>
  of the table of the attributes has been applied to it.
\<close>

lemma spaced_Cons:
  "replace_nonempty ''='' '' = '' (c # cs) =
     (if c = CHR ''='' then '' = '' else [c]) @ replace_nonempty ''='' '' = '' cs"
  by simp

lemma startswith_spaced:
  "CHR ''='' \<notin> set k \<Longrightarrow> CHR '' '' \<notin> set k \<Longrightarrow>
   startswith (replace_nonempty ''='' '' = '' s) k \<Longrightarrow> startswith s k"
proof (induction s k rule: startswith.induct)
  case (1 s)
  show ?case by simp
next
  case (2 p ps)
  then show ?case by simp
next
  case (3 c cs p ps)
  show ?case
  proof (cases "c = CHR ''=''")
    case True
    with 3 show ?thesis by simp
  next
    case False
    with 3 show ?thesis by simp
  qed
qed

lemma contains_spaced:
  assumes "CHR ''='' \<notin> set k" "CHR '' '' \<notin> set k"
  shows "contains (replace_nonempty ''='' '' = '' s) k \<Longrightarrow> contains s k"
proof (induction s)
  case Nil
  then show ?case by simp
next
  case (Cons c cs)
  show ?case
  proof (cases k)
    case Nil
    then show ?thesis by simp
  next
    case (Cons a k')
    with assms have a: "a \<noteq> CHR ''=''" "a \<noteq> CHR '' ''" by auto
    show ?thesis
    proof (cases "c = CHR ''=''")
      case True
      with Cons.prems a \<open>k = a # k'\<close>
      have "contains (replace_nonempty ''='' '' = '' cs) k" by simp
      then have "contains cs k" by (rule Cons.IH)
      then show ?thesis by simp
    next
      case False
      with Cons.prems
      have "startswith (replace_nonempty ''='' '' = '' (c # cs)) k
            \<or> contains (replace_nonempty ''='' '' = '' cs) k"
        by simp
      then show ?thesis
      proof
        assume "startswith (replace_nonempty ''='' '' = '' (c # cs)) k"
        then have "startswith (c # cs) k" by (rule startswith_spaced [OF assms])
        then show ?thesis by simp
      next
        assume "contains (replace_nonempty ''='' '' = '' cs) k"
        then have "contains cs k" by (rule Cons.IH)
        then show ?thesis by simp
      qed
    qed
  qed
qed

lemma two_blanks_spaced:
  "comparison_only s \<Longrightarrow> two_blanks_follow (replace_nonempty ''='' '' = '' s)"
proof (induction s rule: comparison_only.induct)
  case 1
  show ?case by simp
next
  case (2 c)
  then show ?case by simp
next
  case (3 c d ds)
  show ?case
  proof (cases "d = CHR ''=''")
    case True
    with 3 obtain ds' where ds: "ds = CHR '' '' # ds'" and co: "comparison_only ds"
      and c: "c \<noteq> CHR ''=''"
      by (cases ds) auto
    from 3(1) [OF True co] have "two_blanks_follow (replace_nonempty ''='' '' = '' ds)" .
    with True ds c show ?thesis by simp
  next
    case False
    with 3 show ?thesis by simp
  qed
qed

lemma no_range_start:
  "two_blanks_follow t \<Longrightarrow>
   match_here (Star (NotLit CHR ''='') # One (Lit CHR ''='') # One Space
               # Opt (Lit CHR ''-'') # Plus Digit # rest) t = None"
proof (induction t)
  case Nil
  show ?case by simp
next
  case (Cons x xs)
  show ?case
  proof (cases "x = CHR ''=''")
    case True
    with Cons.prems obtain ys where "xs = CHR '' '' # CHR '' '' # ys"
      by (cases xs; cases "tl xs") auto
    with True show ?thesis by simp
  next
    case False
    with Cons show ?thesis by simp
  qed
qed

lemma findall_two_blanks: "two_blanks_follow t \<Longrightarrow> findall p t = []"
proof (induction t)
  case Nil
  show ?case by (simp add: p_def signed_decimal_def)
next
  case (Cons x xs)
  then have "match_here p (x # xs) = None"
    using no_range_start [of xs] by (simp add: p_def signed_decimal_def)
  with Cons show ?case by simp
qed


lemma replace_nonempty_skip:
  "\<not> startswith (c # cs) old \<Longrightarrow>
   replace_nonempty old new (c # cs) = c # replace_nonempty old new cs"
  by simp

lemma spaced_not_eq: "\<not> startswith (replace_nonempty ''='' '' = '' s) (CHR ''='' # k)"
  by (cases s) auto

lemma widened_eq:
  "startswith (replace_nonempty ''>='' ''> = '' t) (CHR ''='' # k) \<Longrightarrow> startswith t ''=''"
  by (cases t) (auto split: if_splits)

lemma collapse_le:
  "comparison_only s \<Longrightarrow>
   replace_nonempty ''< = '' ''<='' (replace_nonempty ''='' '' = '' s)
     = replace_nonempty ''>='' ''> = '' s"
proof (induction s rule: comparison_only.induct)
  case 1
  show ?case by simp
next
  case (2 c)
  then show ?case by simp
next
  case (3 c d ds)
  show ?case
  proof (cases "d = CHR ''=''")
    case True
    with 3 obtain ds' where ds: "ds = CHR '' '' # ds'" and co: "comparison_only ds"
      and c: "c = CHR ''<'' \<or> c = CHR ''>''"
      by (cases ds) auto
    from 3(1) [OF True co]
    have "replace_nonempty ''< = '' ''<='' (replace_nonempty ''='' '' = '' ds)
            = replace_nonempty ''>='' ''> = '' ds" .
    with True ds c show ?thesis by auto
  next
    case False
    with 3 have co: "comparison_only (d # ds)" and c: "c \<noteq> CHR ''=''" by auto
    from 3(2) [OF False co]
    have ih: "replace_nonempty ''< = '' ''<='' (replace_nonempty ''='' '' = '' (d # ds))
            = replace_nonempty ''>='' ''> = '' (d # ds)" .
    have "\<not> startswith (c # replace_nonempty ''='' '' = '' (d # ds)) ''< = ''"
      using False spaced_not_eq [of ds "'' ''"] by simp
    then have "replace_nonempty ''< = '' ''<='' (c # replace_nonempty ''='' '' = '' (d # ds))
            = c # replace_nonempty ''< = '' ''<='' (replace_nonempty ''='' '' = '' (d # ds))"
      by (rule replace_nonempty_skip)
    with ih False c show ?thesis by simp
  qed
qed

lemma collapse_ge:
  "comparison_only s \<Longrightarrow>
   replace_nonempty ''> = '' ''>='' (replace_nonempty ''>='' ''> = '' s) = s"
proof (induction s rule: comparison_only.induct)
  case 1
  show ?case by simp
next
  case (2 c)
  then show ?case by simp
next
  case (3 c d ds)
  show ?case
  proof (cases "d = CHR ''=''")
    case True
    with 3 obtain ds' where ds: "ds = CHR '' '' # ds'" and co: "comparison_only ds"
      and c: "c = CHR ''<'' \<or> c = CHR ''>''"
      by (cases ds) auto
    from 3(1) [OF True co]
    have "replace_nonempty ''> = '' ''>='' (replace_nonempty ''>='' ''> = '' ds) = ds" .
    with True ds c show ?thesis by auto
  next
    case False
    with 3 have co: "comparison_only (d # ds)" and c: "c \<noteq> CHR ''=''" by auto
    from 3(2) [OF False co]
    have ih: "replace_nonempty ''> = '' ''>='' (replace_nonempty ''>='' ''> = '' (d # ds))
                = d # ds" .
    have w: "replace_nonempty ''>='' ''> = '' (c # d # ds)
               = c # replace_nonempty ''>='' ''> = '' (d # ds)"
      using False by simp
    have "\<not> startswith (c # replace_nonempty ''>='' ''> = '' (d # ds)) ''> = ''"
    proof
      assume a: "startswith (c # replace_nonempty ''>='' ''> = '' (d # ds)) ''> = ''"
      then have b: "startswith (replace_nonempty ''>='' ''> = '' (d # ds)) '' = ''" by simp
      then have d: "d = CHR '' ''"
        by (auto split: if_splits)
      with b have "startswith (replace_nonempty ''>='' ''> = '' ds) ''= ''" by simp
      then have "startswith ds ''=''" by (rule widened_eq)
      then obtain ds' where "ds = CHR ''='' # ds'" by (cases ds) auto
      with co d show False by simp
    qed
    then have "replace_nonempty ''> = '' ''>='' (c # replace_nonempty ''>='' ''> = '' (d # ds))
            = c # replace_nonempty ''> = '' ''>='' (replace_nonempty ''>='' ''> = '' (d # ds))"
      by (rule replace_nonempty_skip)
    with ih w show ?thesis by simp
  qed
qed

lemma adjust_spaced:
  "comparison_only s \<Longrightarrow> adjust (replace_nonempty ''='' '' = '' s) = Inr s"
  by (simp add: adjust_def replace_def collapse_le collapse_ge)

lemma split_ranges_spaced:
  "comparison_only s \<Longrightarrow>
   split_ranges (replace_nonempty ''='' '' = '' s) = Inr (replace_nonempty ''='' '' = '' s)"
  by (simp add: split_ranges_def findall_two_blanks two_blanks_spaced)

lemma setitem_fresh: "k \<notin> fst ` set d \<Longrightarrow> setitem d k v = d @ [(k, v)]"
  by (induction d k v rule: setitem.induct) auto

lemma replace_words_append:
  "replace_words s (a @ b) =
     (case replace_words s a of Inl e \<Rightarrow> Inl e | Inr s' \<Rightarrow> replace_words s' b)"
  by (induction s a rule: replace_words.induct)
     (auto split: option.splits val.splits)

lemma attribute_encode_tokens:
  "attribute_encode_loop attributes i d = (enc, j) \<Longrightarrow>
   \<forall>v \<in> snd ` set d. \<exists>n. v = ''X'' @ str n @ ''X'' \<Longrightarrow>
   \<forall>v \<in> snd ` set enc. \<exists>n. v = ''X'' @ str n @ ''X''"
proof (induction attributes arbitrary: i d)
  case Nil
  then show ?case by simp
next
  case (Cons a attributes)
  from Cons.prems(2) values_setitem [of d a "''X'' @ str i @ ''X''"]
  have "\<forall>v \<in> snd ` set (setitem d a (''X'' @ str i @ ''X'')). \<exists>n. v = ''X'' @ str n @ ''X''"
    by blast
  with Cons.IH [of "i + 1" "setitem d a (''X'' @ str i @ ''X'')"] Cons.prems(1)
  show ?case by simp
qed

lemma keys_invert_dict: "fst ` set (invert_dict e d) \<subseteq> fst ` set d \<union> snd ` set e"
proof (induction e d rule: invert_dict.induct)
  case (1 d)
  show ?case by simp
next
  case (2 k v rest d)
  then show ?case using keys_setitem [of d v "Some (Str k)"] by auto
qed


lemma attribute_decode_order:
  assumes "attribute_encode_loop attributes 0 [] = (enc, i)"
    and "make_attribute_decode enc cad = Inr ad"
  shows "\<exists>positive. ad = invert_dict enc [] @ structural_entries positive
           \<and> (\<forall>k \<in> fst ` set (invert_dict enc []). \<exists>n. k = ''X'' @ str n @ ''X'')"
proof -
  from assms(2) obtain positive where
    ad: "ad = add_entries (invert_dict enc []) (structural_entries positive)"
    by (auto simp: make_attribute_decode_def concat_str_def
             split: sum.splits option.splits val.splits)
  let ?T = "invert_dict enc []"
  from attribute_encode_tokens [OF assms(1)]
  have val: "\<forall>v \<in> snd ` set enc. \<exists>n. v = ''X'' @ str n @ ''X''" by simp
  have tok: "\<forall>k \<in> fst ` set ?T. \<exists>n. k = ''X'' @ str n @ ''X''"
  proof
    fix k assume "k \<in> fst ` set ?T"
    with keys_invert_dict [of enc "[]"] have "k \<in> snd ` set enc" by auto
    with val show "\<exists>n. k = ''X'' @ str n @ ''X''" by (rule bspec)
  qed
  have fresh: "'' ^ '' \<notin> fst ` set ?T" "''='' \<notin> fst ` set ?T" "''V'' \<notin> fst ` set ?T"
    "''[['' \<notin> fst ` set ?T" "'']]'' \<notin> fst ` set ?T" "''['' \<notin> fst ` set ?T"
    "'']'' \<notin> fst ` set ?T"
    using tok by auto
  have "add_entries ?T (structural_entries positive) = ?T @ structural_entries positive"
    using fresh by (simp add: add_entries_def structural_entries_def setitem_fresh)
  with ad tok show ?thesis by blast
qed

section \<open>Facts about tables\<close>

lemma unique_filter: "unique (filter P xs) = filter P (unique xs)"
proof (induction xs rule: unique.induct)
  case 1
  show ?case by simp
next
  case (2 x xs)
  show ?case
  proof (cases "P x")
    case True
    have "filter (\<lambda>y. y \<noteq> x) (filter P xs) = filter P (filter (\<lambda>y. y \<noteq> x) xs)"
      by (simp add: conj_commute)
    with True 2 show ?thesis by simp
  next
    case False
    then have "filter P (filter (\<lambda>y. y \<noteq> x) xs) = filter P xs"
      by (auto intro: filter_cong)
    with False 2 show ?thesis by simp
  qed
qed

lemma nunique_le: "nunique vs \<le> length (unique vs)"
  by (simp add: nunique_def unique_filter)

lemma keep_rows_self: "keep_rows (map f xs) xs = filter f xs"
  unfolding keep_rows_def by (induction xs) auto

lemma set_keep_rows: "set (keep_rows keep xs) \<subseteq> set xs"
  unfolding keep_rows_def by (auto dest: set_zip_rightD)

lemma getitem_Inr: "getitem df n = Inr c \<Longrightarrow> c \<in> set (columns df) \<and> cname c = n"
  unfolding getitem_def by (auto split: option.splits simp: find_Some_iff)

lemma getitem_total:
  "n \<in> set (map cname (columns df)) \<Longrightarrow> \<exists>c. getitem df n = Inr c"
  unfolding getitem_def by (auto split: option.splits simp: find_None_iff)

lemma distinct_cname_eq:
  "distinct (map cname cs) \<Longrightarrow> c \<in> set cs \<Longrightarrow> d \<in> set cs \<Longrightarrow> cname c = cname d \<Longrightarrow> c = d"
  by (metis distinct_map inj_onD)

lemma dropna_subset_columns:
  "getitem df n = Inr c \<Longrightarrow>
   dropna_subset df n =
     Inr \<lparr>nrows = length (filter notna (cells c)),
          columns = map (\<lambda>d. d\<lparr>cells := keep_rows (map notna (cells c)) (cells d)\<rparr>) (columns df)\<rparr>"
  unfolding dropna_subset_def by (simp add: Let_def filter_map comp_def)

text \<open>
  The loop of \<^verbatim>\<open>clear_numeric_nan\<close> returns, keeps the labels and the dtypes, and leaves no
  missing cell in a numeric column whose label it has visited (\<open>D\<close> holds the labels
  visited before).
\<close>

lemma clear_numeric_nan_loop_inv:
  "distinct (map cname (columns df)) \<Longrightarrow>
   set ns \<subseteq> set (map cname (columns df)) \<Longrightarrow>
   (\<forall>c \<in> set (columns df). cname c \<in> D \<and> dtype c = ''float64'' \<longrightarrow> None \<notin> set (cells c)) \<Longrightarrow>
   \<exists>df'. clear_numeric_nan_loop ns df = Inr df' \<and>
     map cname (columns df') = map cname (columns df) \<and>
     map dtype (columns df') = map dtype (columns df) \<and>
     (\<forall>c \<in> set (columns df'). cname c \<in> D \<union> set ns \<and> dtype c = ''float64''
          \<longrightarrow> None \<notin> set (cells c))"
proof (induction ns arbitrary: df D)
  case Nil
  then show ?case by simp
next
  case (Cons n ns)
  from Cons.prems(2) obtain c where c: "getitem df n = Inr c"
    using getitem_total [of n df] by auto
  then have cin: "c \<in> set (columns df)" and cn: "cname c = n"
    using getitem_Inr by blast+
  show ?case
  proof (cases "dtype c = ''float64''")
    case True
    define df1 where "df1 = \<lparr>nrows = length (filter notna (cells c)),
          columns = map (\<lambda>d. d\<lparr>cells := keep_rows (map notna (cells c)) (cells d)\<rparr>) (columns df)\<rparr>"
    have step: "dropna_subset df n = Inr df1"
      using dropna_subset_columns [OF c] by (simp add: df1_def)
    have names: "map cname (columns df1) = map cname (columns df)"
      by (simp add: df1_def comp_def)
    have types: "map dtype (columns df1) = map dtype (columns df)"
      by (simp add: df1_def comp_def)
    have inv: "\<forall>d \<in> set (columns df1). cname d \<in> insert n D \<and> dtype d = ''float64''
          \<longrightarrow> None \<notin> set (cells d)"
    proof (intro ballI impI)
      fix d' assume d': "d' \<in> set (columns df1)"
        and h: "cname d' \<in> insert n D \<and> dtype d' = ''float64''"
      from d' obtain d where d: "d \<in> set (columns df)"
        and d'eq: "d' = d\<lparr>cells := keep_rows (map notna (cells c)) (cells d)\<rparr>"
        by (auto simp: df1_def)
      show "None \<notin> set (cells d')"
      proof (cases "cname d = n")
        case True
        then have "d = c"
          using distinct_cname_eq [OF Cons.prems(1) d cin] cn by simp
        then show ?thesis
          by (simp add: d'eq keep_rows_self notna_def)
      next
        case False
        with h d'eq have "cname d \<in> D" "dtype d = ''float64''" by auto
        with Cons.prems(3) d have "None \<notin> set (cells d)" by blast
        then show ?thesis
          using set_keep_rows [of "map notna (cells c)" "cells d"] by (auto simp: d'eq)
      qed
    qed
    from Cons.IH [of df1 "insert n D"] names Cons.prems(1,2) inv
    obtain df' where "clear_numeric_nan_loop ns df1 = Inr df'"
      "map cname (columns df') = map cname (columns df1)"
      "map dtype (columns df') = map dtype (columns df1)"
      "\<forall>c \<in> set (columns df'). cname c \<in> insert n D \<union> set ns \<and> dtype c = ''float64''
          \<longrightarrow> None \<notin> set (cells c)"
      by auto
    then show ?thesis
      using c True step names types by auto
  next
    case False
    have inv: "\<forall>d \<in> set (columns df). cname d \<in> insert n D \<and> dtype d = ''float64''
          \<longrightarrow> None \<notin> set (cells d)"
    proof (intro ballI impI)
      fix d assume d: "d \<in> set (columns df)"
        and h: "cname d \<in> insert n D \<and> dtype d = ''float64''"
      have "cname d \<noteq> n"
      proof
        assume "cname d = n"
        then have "d = c"
          using distinct_cname_eq [OF Cons.prems(1) d cin] cn by simp
        with h False show False by simp
      qed
      with h Cons.prems(3) d show "None \<notin> set (cells d)" by blast
    qed
    from Cons.IH [of df "insert n D"] Cons.prems(1,2) inv
    obtain df' where "clear_numeric_nan_loop ns df = Inr df'"
      "map cname (columns df') = map cname (columns df)"
      "map dtype (columns df') = map dtype (columns df)"
      "\<forall>c \<in> set (columns df'). cname c \<in> insert n D \<union> set ns \<and> dtype c = ''float64''
          \<longrightarrow> None \<notin> set (cells c)"
      by auto
    then show ?thesis
      using c False by auto
  qed
qed

lemma clear_numeric_nan_post:
  assumes "distinct (map cname (columns df))"
  shows "\<exists>df'. clear_numeric_nan df = Inr df' \<and>
     map cname (columns df') = map cname (columns df) \<and>
     (\<forall>c \<in> set (columns df'). dtype c = ''float64'' \<longrightarrow> None \<notin> set (cells c))"
proof -
  from clear_numeric_nan_loop_inv [OF assms, of "map cname (columns df)" "{}"]
  obtain df' where r: "clear_numeric_nan_loop (map cname (columns df)) df = Inr df'"
    and n: "map cname (columns df') = map cname (columns df)"
    and p: "\<forall>c \<in> set (columns df'). cname c \<in> {} \<union> set (map cname (columns df)) \<and> dtype c = ''float64''
          \<longrightarrow> None \<notin> set (cells c)"
    by auto
  have "\<forall>c \<in> set (columns df'). cname c \<in> set (map cname (columns df))"
    using n by (metis image_eqI list.set_map)
  with r n p show ?thesis
    unfolding clear_numeric_nan_def by auto
qed

lemma dropna_columns_distinct:
  "distinct (map cname (columns df)) \<Longrightarrow> distinct (map cname (columns (dropna_columns df th)))"
  unfolding dropna_columns_def by (simp add: distinct_map_filter)

text \<open>
  What \<^verbatim>\<open>clean_dataframe\<close> returns for any threshold that its first line may have computed.
\<close>

lemma clean_dataframe_thresh_post:
  assumes "distinct (map cname (columns df))"
  shows "\<exists>df'. clean_dataframe_thresh df th = Inr df' \<and>
     (\<forall>c \<in> set (columns df'). dtype c = ''float64'' \<longrightarrow> None \<notin> set (cells c)) \<and>
     (\<forall>c' \<in> set (columns df'). \<exists>c \<in> set (columns df).
          cname c = cname c' \<and> th \<le> int (notna_count c))"
proof -
  have d: "distinct (map cname (columns (dropna_columns df th)))"
    using assms by (rule dropna_columns_distinct)
  from clear_numeric_nan_post [OF d]
  obtain df' where r: "clear_numeric_nan (dropna_columns df th) = Inr df'"
    and n: "map cname (columns df') = map cname (columns (dropna_columns df th))"
    and p: "\<forall>c \<in> set (columns df'). dtype c = ''float64'' \<longrightarrow> None \<notin> set (cells c)"
    by auto
  have q: "\<exists>c \<in> set (columns df). cname c = cname c' \<and> th \<le> int (notna_count c)"
    if "c' \<in> set (columns df')" for c'
  proof -
    from that have "cname c' \<in> set (map cname (columns df'))" by simp
    with n have "cname c' \<in> set (map cname (columns (dropna_columns df th)))" by simp
    then show ?thesis
      by (auto simp: dropna_columns_def)
  qed
  from r p q show ?thesis
    unfolding clean_dataframe_thresh_def by blast
qed


section \<open>Facts about the walk over the tree\<close>

lemma print_rule_snoc:
  "print_rule (as @ [c]) = (if as = [] then Inl IndexError else Inr (rule_text as c))"
proof (cases as rule: rev_cases)
  case Nil
  then show ?thesis by (simp add: print_rule_def)
next
  case (snoc bs b)
  then show ?thesis by (simp add: print_rule_def rule_text_def)
qed

lemma leaf_rules_Leaf:
  "leaf_rules F cad dd (Leaf v) as = [rule_text as (if v = 0 then cad ! 1 else cad ! 0)]"
  by (simp add: leaf_rules_def)

lemma leaf_rules_Split:
  "leaf_rules F cad dd (Split i thr l r) as =
     leaf_rules F cad dd l (as @ [fst (branch_antecedents F dd i thr)])
     @ leaf_rules F cad dd r (as @ [snd (branch_antecedents F dd i thr)])"
  by (simp add: leaf_rules_def)

lemma and_then_prefix:
  assumes a: "\<exists>n. fst a = take n xs \<and> (snd a = None \<longrightarrow> fst a = xs)"
    and b: "\<exists>n. fst b = take n ys \<and> (snd b = None \<longrightarrow> fst b = ys)"
  shows "\<exists>n. fst (and_then a b) = take n (xs @ ys)
            \<and> (snd (and_then a b) = None \<longrightarrow> fst (and_then a b) = xs @ ys)"
proof (cases "snd a")
  case None
  from b obtain m where "fst b = take m ys \<and> (snd b = None \<longrightarrow> fst b = ys)" ..
  then have m: "fst b = take m ys" and full: "snd b = None \<longrightarrow> fst b = ys" by blast+
  from a None have xs: "fst a = xs" by blast
  have 1: "fst (and_then a b) = take (length xs + m) (xs @ ys)"
    using None m xs by (simp add: and_then_def)
  have 2: "snd (and_then a b) = None \<longrightarrow> fst (and_then a b) = xs @ ys"
    using None full xs by (simp add: and_then_def)
  from 1 2 show ?thesis by (intro exI [of _ "length xs + m"] conjI)
next
  case (Some e)
  from a obtain n where n: "fst a = take n xs" by blast
  have 1: "fst (and_then a b) = take (min n (length xs)) (xs @ ys)"
    using Some n by (simp add: and_then_def min_def)
  have 2: "snd (and_then a b) = None \<longrightarrow> fst (and_then a b) = xs @ ys"
    using Some by (simp add: and_then_def)
  from 1 2 show ?thesis by (intro exI [of _ "min n (length xs)"] conjI)
qed

lemma recurse_prefix:
  "\<exists>n. fst (recurse F cad dd t as) = take n (leaf_rules F cad dd t as)
      \<and> (snd (recurse F cad dd t as) = None
           \<longrightarrow> fst (recurse F cad dd t as) = leaf_rules F cad dd t as)"
proof (induction t arbitrary: as)
  case (Leaf v)
  show ?case
  proof (cases "snd (recurse F cad dd (Leaf v) as)")
    case None
    then have "fst (recurse F cad dd (Leaf v) as) = leaf_rules F cad dd (Leaf v) as"
      by (auto simp: leaf_rules_Leaf print_rule_snoc dest: item_Inr
               split: sum.splits if_splits)
    then show ?thesis
      by (metis take_all order_refl)
  next
    case (Some e)
    then have "fst (recurse F cad dd (Leaf v) as) = []"
      by (auto split: sum.splits if_splits)
    then show ?thesis using Some by (intro exI [of _ 0]) simp
  qed
next
  case (Split i thr l r)
  let ?x = "fst (branch_antecedents F dd i thr)"
  let ?y = "snd (branch_antecedents F dd i thr)"
  have both: "\<exists>n. fst (and_then (recurse F cad dd l (as @ [?x])) (recurse F cad dd r (as @ [?y])))
                 = take n (leaf_rules F cad dd (Split i thr l r) as)
      \<and> (snd (and_then (recurse F cad dd l (as @ [?x])) (recurse F cad dd r (as @ [?y]))) = None
           \<longrightarrow> fst (and_then (recurse F cad dd l (as @ [?x])) (recurse F cad dd r (as @ [?y])))
               = leaf_rules F cad dd (Split i thr l r) as)"
    unfolding leaf_rules_Split
    by (rule and_then_prefix [OF Split.IH(1) Split.IH(2)])
  consider (num) "snd (F ! i) = ''float64''"
    | (cat) v0 v1 where "snd (F ! i) \<noteq> ''float64''" "snd (F ! i) = ''int64''"
        "map_of dd (fst (F ! i)) = Some (v0, v1)"
    | (key) "snd (F ! i) \<noteq> ''float64''" "snd (F ! i) = ''int64''"
        "map_of dd (fst (F ! i)) = None"
    | (other) "snd (F ! i) \<noteq> ''float64''" "snd (F ! i) \<noteq> ''int64''"
    by (cases "map_of dd (fst (F ! i))") auto
  then show ?case
  proof cases
    case num
    then have "recurse F cad dd (Split i thr l r) as
        = and_then (recurse F cad dd l (as @ [?x])) (recurse F cad dd r (as @ [?y]))"
      by (simp add: Let_def branch_antecedents_def)
    with both show ?thesis by simp
  next
    case cat
    then have "recurse F cad dd (Split i thr l r) as
        = and_then (recurse F cad dd l (as @ [?x])) (recurse F cad dd r (as @ [?y]))"
      by (simp add: Let_def branch_antecedents_def)
    with both show ?thesis by simp
  next
    case key
    then have "recurse F cad dd (Split i thr l r) as = ([], Some KeyError)"
      by (simp add: Let_def)
    then show ?thesis by (intro exI [of _ 0]) simp
  next
    case other
    then have "recurse F cad dd (Split i thr l r) as
        = ([], Some (untranslatable (fst (F ! i)) (snd (F ! i))))"
      by (simp add: Let_def)
    then show ?thesis by (intro exI [of _ 0]) simp
  qed
qed

lemma recurse_supported:
  "supported F dd t \<Longrightarrow> 2 \<le> length cad \<Longrightarrow> as \<noteq> [] \<Longrightarrow>
   snd (recurse F cad dd t as) = None"
proof (induction t arbitrary: as)
  case (Leaf v)
  then have "0 < length cad" "1 < length cad" by linarith+
  with Leaf show ?case by (simp add: item_def print_rule_snoc)
next
  case (Split i thr l r)
  from Split.prems have l: "snd (recurse F cad dd l (as @ [x])) = None"
    and r: "snd (recurse F cad dd r (as @ [x])) = None" for x
    using Split.IH by auto
  from Split.prems(1) show ?case
    by (auto simp: Let_def and_then_def l r)
qed

lemma supported_indices:
  "supported F dd t \<Longrightarrow> \<forall>i \<in> set (split_features t). i < length F"
  by (induction t) auto

lemma leaves_paths: "map snd (paths F dd t as) = leaves t"
  by (induction t arbitrary: as) auto

lemma recurse_root_split:
  assumes "supported F dd (Split i thr l r)" "2 \<le> length cad"
  shows "snd (recurse F cad dd (Split i thr l r) []) = None"
proof -
  have l: "snd (recurse F cad dd l [x]) = None"
    and r: "snd (recurse F cad dd r [x]) = None" for x
    using assms recurse_supported [of F dd _ cad "[x]"] by auto
  from assms(1) show ?thesis
    by (auto simp: Let_def and_then_def l r)
qed


lemma tree_to_ruleset_prefix:
  "\<exists>n. fst (tree_to_ruleset t F cad dd) = take n (leaf_rules F cad dd t [])"
proof (cases "\<forall>i \<in> set (split_features t). i < length F")
  case True
  then have "tree_to_ruleset t F cad dd = recurse F cad dd t []"
    by (simp add: tree_to_ruleset_def)
  with recurse_prefix [of F cad dd t "[]"] show ?thesis by auto
next
  case False
  then have "fst (tree_to_ruleset t F cad dd) = take 0 (leaf_rules F cad dd t [])"
    by (auto simp: tree_to_ruleset_def)
  then show ?thesis by (rule exI)
qed

section \<open>The claims\<close>

subsection \<open>Range splitting\<close>

text \<open>
  C1. The claim is that \<^verbatim>\<open>(age = -5.0-10.0)\<close> becomes
  \<^verbatim>\<open>(age >= -5.0) AND (age <= 10.0)\<close>. The pass gives another text: \<open>pRrng\<close> starts with an
  optional minus sign, so the first place of the range at which it matches is the hyphen
  that separates the bounds, and the right bound comes out as \<^verbatim>\<open>-10.0\<close>. A range between two
  positive bounds gets a negative right bound in the same way.
\<close>

theorem range_split_absorbs_separator:
  "split_ranges ''(age = -5.0-10.0)'' = Inr ''(age >= -5.0) AND (age <= -10.0)''
   \<and> split_ranges ''(age = -5.0-10.0)'' \<noteq> Inr ''(age >= -5.0) AND (age <= 10.0)''
   \<and> findall p ''(age = -5.0-10.0)'' = [''(age = -5.0-10.0)'']
   \<and> findall pLrng ''= -5.0-10.0)'' = [''-5.0'', ''-10.0'']
   \<and> findall pRrng ''= -5.0-10.0)'' = [''-10.0)'']
   \<and> split_ranges ''(age = 5.0-10.0)'' = Inr ''(age >= 5.0) AND (age <= -10.0)''"
  by code_simp

subsection \<open>Data conditioning\<close>

text \<open>
  C2, as amended. For a table with distinct labels: when line 44 raises an error,
  \<^verbatim>\<open>clean_dataframe\<close> raises it; when line 44 gives the threshold \<open>th\<close>, which is
  \<open>ceil((1 - cp) * rowCount)\<close> for the row count of the input, computed in doubles,
  \<^verbatim>\<open>clean_dataframe\<close> returns a table in which no numeric column has a missing cell, and
  every column that is left is a column of the input that has at least \<open>th\<close> cells that
  are not missing there, before the rows are dropped.
\<close>

theorem clean_dataframe_postcondition:
  assumes "wf_dataframe df"
  shows "case column_threshold cp (nrows df) of
           Inl e \<Rightarrow> clean_dataframe df cp = Inl e
         | Inr th \<Rightarrow>
            (\<exists>df'. clean_dataframe df cp = Inr df' \<and>
               (\<forall>c \<in> set (columns df'). dtype c = ''float64'' \<longrightarrow> None \<notin> set (cells c)) \<and>
               (\<forall>c' \<in> set (columns df'). \<exists>c \<in> set (columns df).
                    cname c = cname c' \<and> th \<le> int (notna_count c)))"
proof (cases "column_threshold cp (nrows df)")
  case (Inl e)
  then show ?thesis by (simp add: clean_dataframe_def)
next
  case (Inr th)
  from assms have "distinct (map cname (columns df))"
    by (simp add: wf_dataframe_def)
  from clean_dataframe_thresh_post [OF this, of th] Inr show ?thesis
    by (simp add: clean_dataframe_def)
qed

text \<open>
  The theorem at a table of two rows with the threshold 1/2: the categorical column \<open>a\<close>
  and the numeric column \<open>b\<close> have one cell each that is not missing, in different rows.
\<close>

theorem clean_dataframe_postcondition_witness:
  "wf_dataframe
     \<lparr>nrows = 2, columns =
        [\<lparr>cname = ''a'', dtype = ''object'', cells = [None, Some (Str ''x'')]\<rparr>,
         \<lparr>cname = ''b'', dtype = ''float64'', cells = [Some (Num 1), None]\<rparr>]\<rparr>
   \<and> column_threshold (Finite (1 / 2)) 2 = Inr 1
   \<and> (\<exists>df'. clean_dataframe
         \<lparr>nrows = 2, columns =
            [\<lparr>cname = ''a'', dtype = ''object'', cells = [None, Some (Str ''x'')]\<rparr>,
             \<lparr>cname = ''b'', dtype = ''float64'', cells = [Some (Num 1), None]\<rparr>]\<rparr>
           (Finite (1 / 2))
           = Inr df'
         \<and> (\<forall>c \<in> set (columns df'). dtype c = ''float64'' \<longrightarrow> None \<notin> set (cells c))
         \<and> (\<forall>c' \<in> set (columns df'). 1 \<le> int (notna_count
               (if cname c' = ''a''
                then \<lparr>cname = ''a'', dtype = ''object'', cells = [None, Some (Str ''x'')]\<rparr>
                else \<lparr>cname = ''b'', dtype = ''float64'', cells = [Some (Num 1), None]\<rparr>))))"
proof -
  let ?df = "\<lparr>nrows = 2, columns =
        [\<lparr>cname = ''a'', dtype = ''object'', cells = [None, Some (Str ''x'')]\<rparr>,
         \<lparr>cname = ''b'', dtype = ''float64'', cells = [Some (Num 1), None]\<rparr>]\<rparr>"
  have wf: "wf_dataframe ?df"
    by (simp add: wf_dataframe_def)
  have th: "column_threshold (Finite (1 / 2)) 2 = Inr 1"
    by (rule threshold_half_2)
  from clean_dataframe_postcondition [OF wf, of "Finite (1 / 2)"] th
  obtain df' where "clean_dataframe ?df (Finite (1 / 2)) = Inr df'"
    "\<forall>c \<in> set (columns df'). dtype c = ''float64'' \<longrightarrow> None \<notin> set (cells c)"
    by auto
  with wf th show ?thesis
    by (auto simp: notna_count_def notna_def)
qed

text \<open>
  C2 as it is stated fails at that table. The threshold is 1, in doubles and in exact
  arithmetic, for the two rows of the input and for the one row that is left. The row in
  which \<open>b\<close> is missing is dropped, and with it the only cell of \<open>a\<close> that is not missing:
  \<open>a\<close> is left with none.
\<close>

theorem clean_dataframe_count_counterexample:
  "clean_dataframe
     \<lparr>nrows = 2, columns =
        [\<lparr>cname = ''a'', dtype = ''object'', cells = [None, Some (Str ''x'')]\<rparr>,
         \<lparr>cname = ''b'', dtype = ''float64'', cells = [Some (Num 1), None]\<rparr>]\<rparr>
     (Finite (1 / 2))
     = Inr \<lparr>nrows = 1, columns =
        [\<lparr>cname = ''a'', dtype = ''object'', cells = [None]\<rparr>,
         \<lparr>cname = ''b'', dtype = ''float64'', cells = [Some (Num 1)]\<rparr>]\<rparr>
   \<and> notna_count \<lparr>cname = ''a'', dtype = ''object'', cells = [None]\<rparr> = 0
   \<and> column_threshold (Finite (1 / 2)) 2 = Inr 1
   \<and> column_threshold (Finite (1 / 2)) 1 = Inr 1
   \<and> \<lceil>(1 - (1 / 2 :: rat)) * of_nat 2\<rceil> = 1
   \<and> \<lceil>(1 - (1 / 2 :: rat)) * of_nat 1\<rceil> = 1"
  by (simp add: clean_dataframe_def threshold_half_2 threshold_half_1 ceiling_half
        clean_dataframe_thresh_def dropna_columns_def
        notna_count_def notna_def clear_numeric_nan_def getitem_def dropna_subset_def
        keep_rows_def)

subsection \<open>Extraction of the rules from a tree\<close>

text \<open>
  C3. At a leaf the line that is printed, if one is, ends in \<open>class_attr_domain[1]\<close> when
  the value of the leaf is 0 and in \<open>class_attr_domain[0]\<close> when it is not; the lines that
  \<^verbatim>\<open>tree_to_ruleset\<close> prints for a tree are, from the first on, these lines for its leaves
  from left to right; and the tree with the one split \<^verbatim>\<open>sepal_length <= 5.0\<close>, a left leaf
  of value 0 and a right leaf of another value gives the two rules of the claim.
\<close>

theorem leaf_polarity:
  "fst (recurse F cad dd (Leaf v) as) =
     (if snd (recurse F cad dd (Leaf v) as) = None
      then [rule_text as (if v = 0 then cad ! 1 else cad ! 0)] else [])
   \<and> (\<exists>n. fst (tree_to_ruleset t F cad dd) = take n (leaf_rules F cad dd t []))
   \<and> (w \<noteq> 0 \<longrightarrow>
        tree_to_ruleset (Split 0 ''5.0'' (Leaf 0) (Leaf w)) [(''sepal_length'', ''float64'')]
          [''setosa'', ''versicolor''] dd'
        = ([''(sepal_length <= 5.0) => versicolor'', ''(sepal_length > 5.0) => setosa''], None))"
proof (intro conjI impI)
  show "fst (recurse F cad dd (Leaf v) as) =
     (if snd (recurse F cad dd (Leaf v) as) = None
      then [rule_text as (if v = 0 then cad ! 1 else cad ! 0)] else [])"
    using print_rule_snoc [of "[]"]
    by (auto simp: print_rule_snoc dest: item_Inr split: sum.splits if_splits)
  show "\<exists>n. fst (tree_to_ruleset t F cad dd) = take n (leaf_rules F cad dd t [])"
    by (rule tree_to_ruleset_prefix)
next
  assume "w \<noteq> 0"
  then show "tree_to_ruleset (Split 0 ''5.0'' (Leaf 0) (Leaf w)) [(''sepal_length'', ''float64'')]
          [''setosa'', ''versicolor''] dd'
        = ([''(sepal_length <= 5.0) => versicolor'', ''(sepal_length > 5.0) => setosa''], None)"
    by (simp add: tree_to_ruleset_def Let_def and_then_def item_def print_rule_def
          numeric_left_def numeric_right_def)
qed

theorem leaf_polarity_witness:
  "(3 :: rat) \<noteq> 0
   \<and> tree_to_ruleset (Split 0 ''5.0'' (Leaf 0) (Leaf 3)) [(''sepal_length'', ''float64'')]
          [''setosa'', ''versicolor''] []
        = ([''(sepal_length <= 5.0) => versicolor'', ''(sepal_length > 5.0) => setosa''], None)"
  using leaf_polarity [where w = 3 and dd' = "[]"] by simp

text \<open>
  C4. At a split on the attribute \<open>name\<close> of type \<open>type\<close>: for \<^verbatim>\<open>float64\<close> the walk goes
  left with \<^verbatim>\<open>(name <= threshold)\<close> and then right with \<^verbatim>\<open>(name > threshold)\<close>; for
  \<^verbatim>\<open>int64\<close> with the pair \<open>(v0, v1)\<close> in \<open>domain_decode\<close> it goes left with \<^verbatim>\<open>(name = v0)\<close>
  and right with \<^verbatim>\<open>(name = v1)\<close>; for any other type it stops, and the message of the
  exit holds the name and the type.
\<close>

theorem split_antecedents:
  assumes "features ! i = (name, type)"
  shows "(type = ''float64'' \<longrightarrow>
           recurse features cad dd (Split i threshold l r) as =
             and_then
               (recurse features cad dd l (as @ [''('' @ name @ '' <= '' @ threshold @ '')'']))
               (recurse features cad dd r (as @ [''('' @ name @ '' > '' @ threshold @ '')''])))
       \<and> (type = ''int64'' \<and> map_of dd name = Some (v0, v1) \<longrightarrow>
           recurse features cad dd (Split i threshold l r) as =
             and_then
               (recurse features cad dd l (as @ [''('' @ name @ '' = '' @ v0 @ '')'']))
               (recurse features cad dd r (as @ [''('' @ name @ '' = '' @ v1 @ '')''])))
       \<and> (type \<noteq> ''float64'' \<and> type \<noteq> ''int64'' \<longrightarrow>
           recurse features cad dd (Split i threshold l r) as =
             ([], Some (Exit (''Error: couldn'' @ [CHR 0x27] @ ''t translate attribute '' @ name
                              @ '' of type '' @ type @ ''.'' @ [CHR 0x0A]))))"
  using assms
  by (simp add: Let_def numeric_left_def numeric_right_def categorical_def untranslatable_def)

theorem split_antecedents_witness:
  "recurse [(''sepal_length'', ''float64''), (''sex'', ''int64''), (''seen'', ''bool'')]
      [''setosa'', ''versicolor''] [(''sex'', ''f'', ''m'')]
      (Split 0 ''5.0'' (Leaf 0) (Leaf 3)) [''(a = b)'']
    = ([''(a = b) AND (sepal_length <= 5.0) => versicolor'',
        ''(a = b) AND (sepal_length > 5.0) => setosa''], None)
   \<and> recurse [(''sepal_length'', ''float64''), (''sex'', ''int64''), (''seen'', ''bool'')]
      [''setosa'', ''versicolor''] [(''sex'', ''f'', ''m'')]
      (Split 1 ''0.5'' (Leaf 0) (Leaf 3)) []
    = ([''(sex = f) => versicolor'', ''(sex = m) => setosa''], None)
   \<and> recurse [(''sepal_length'', ''float64''), (''sex'', ''int64''), (''seen'', ''bool'')]
      [''setosa'', ''versicolor''] [(''sex'', ''f'', ''m'')]
      (Split 2 ''0.5'' (Leaf 0) (Leaf 3)) []
    = ([], Some (Exit (''Error: couldn'' @ [CHR 0x27]
                       @ ''t translate attribute seen of type bool.'' @ [CHR 0x0A])))"
  using
    split_antecedents [of "[(''sepal_length'', ''float64''), (''sex'', ''int64''), (''seen'', ''bool'')]"
      0 "''sepal_length''" "''float64''" "[''setosa'', ''versicolor'']" "[(''sex'', ''f'', ''m'')]"
      "''5.0''" "Leaf 0" "Leaf 3" "[''(a = b)'']"]
    split_antecedents [of "[(''sepal_length'', ''float64''), (''sex'', ''int64''), (''seen'', ''bool'')]"
      1 "''sex''" "''int64''" "[''setosa'', ''versicolor'']" "[(''sex'', ''f'', ''m'')]"
      "''0.5''" "Leaf 0" "Leaf 3" "[]" "''f''" "''m''"]
    split_antecedents [of "[(''sepal_length'', ''float64''), (''sex'', ''int64''), (''seen'', ''bool'')]"
      2 "''seen''" "''bool''" "[''setosa'', ''versicolor'']" "[(''sex'', ''f'', ''m'')]"
      "''0.5''" "Leaf 0" "Leaf 3" "[]"]
  by (simp add: and_then_def item_def print_rule_def)

text \<open>
  C7, as amended. For a tree that starts with a split and is supported, and a class domain
  of two values or more, \<^verbatim>\<open>tree_to_ruleset\<close> ends without an error and prints one line for
  each leaf, in the order of the leaves from left to right.
\<close>

theorem one_rule_per_leaf:
  assumes "supported features dd (Split i threshold l r)" and "2 \<le> length cad"
  shows "tree_to_ruleset (Split i threshold l r) features cad dd =
           (leaf_rules features cad dd (Split i threshold l r) [], None)
       \<and> length (leaf_rules features cad dd (Split i threshold l r) [])
           = length (leaves (Split i threshold l r))
       \<and> map snd (paths features dd (Split i threshold l r) []) = leaves (Split i threshold l r)"
proof -
  let ?t = "Split i threshold l r"
  have run: "tree_to_ruleset ?t features cad dd = recurse features cad dd ?t []"
    using supported_indices [OF assms(1)] by (simp add: tree_to_ruleset_def)
  have ok: "snd (recurse features cad dd ?t []) = None"
    by (rule recurse_root_split [OF assms])
  with recurse_prefix [of features cad dd ?t "[]"]
  have "fst (recurse features cad dd ?t []) = leaf_rules features cad dd ?t []"
    by blast
  with ok have "recurse features cad dd ?t [] = (leaf_rules features cad dd ?t [], None)"
    by (simp add: prod_eq_iff)
  moreover have "length (leaf_rules features cad dd ?t []) = length (leaves ?t)"
    using leaves_paths [of features dd ?t "[]"]
    by (metis leaf_rules_def length_map)
  ultimately show ?thesis
    using run leaves_paths [of features dd ?t "[]"] by simp
qed

theorem one_rule_per_leaf_witness:
  "supported [(''sepal_length'', ''float64''), (''sex'', ''int64'')] [(''sex'', ''f'', ''m'')]
     (Split 0 ''5.0'' (Leaf 0) (Split 1 ''0.5'' (Leaf 2) (Leaf 0)))
   \<and> 2 \<le> length [''setosa'', ''versicolor'']
   \<and> tree_to_ruleset (Split 0 ''5.0'' (Leaf 0) (Split 1 ''0.5'' (Leaf 2) (Leaf 0)))
        [(''sepal_length'', ''float64''), (''sex'', ''int64'')] [''setosa'', ''versicolor'']
        [(''sex'', ''f'', ''m'')]
      = ([''(sepal_length <= 5.0) => versicolor'',
          ''(sepal_length > 5.0) AND (sex = f) => setosa'',
          ''(sepal_length > 5.0) AND (sex = m) => versicolor''], None)
   \<and> leaves (Split 0 ''5.0'' (Leaf 0) (Split 1 ''0.5'' (Leaf 2) (Leaf 0))) = [0, 2, 0]"
proof -
  have s: "supported [(''sepal_length'', ''float64''), (''sex'', ''int64'')] [(''sex'', ''f'', ''m'')]
     (Split 0 ''5.0'' (Leaf 0) (Split 1 ''0.5'' (Leaf 2) (Leaf 0)))"
    by simp
  have n: "2 \<le> length [''setosa'', ''versicolor'']"
    by simp
  from one_rule_per_leaf [OF s n] s n show ?thesis
    by (simp add: leaf_rules_def branch_antecedents_def rule_text_def numeric_left_def
          numeric_right_def categorical_def)
qed

text \<open>
  C7 as it is stated fails at a tree with a split on an attribute of a type that the
  function does not translate: the tree has two leaves and no rule is printed.
\<close>

theorem one_rule_per_leaf_counterexample:
  "tree_to_ruleset (Split 0 ''0.5'' (Leaf 2) (Leaf 0)) [(''seen'', ''bool'')]
       [''setosa'', ''versicolor''] []
     = ([], Some (Exit (''Error: couldn'' @ [CHR 0x27]
                        @ ''t translate attribute seen of type bool.'' @ [CHR 0x0A])))
   \<and> length (leaves (Split 0 ''0.5'' (Leaf 2) (Leaf 0))) = 2"
  by (simp add: tree_to_ruleset_def untranslatable_def)

subsection \<open>The class attribute\<close>



text \<open>
  C6. When the class column has the two values \<open>a\<close> and \<open>b\<close>, met in this order, and one
  of them only starts with \<^verbatim>\<open>NO_\<close>, both scripts end with that value at index 0 and the other
  at index 1.
\<close>

theorem class_domain_ordering:
  assumes "unique (cells c) = [Some (Str a), Some (Str b)]"
    and "startswith a ''NO_'' \<noteq> startswith b ''NO_''"
  shows "sklearn_class_attr_domain c =
           Inr (if startswith a ''NO_'' then [Some (Str a), Some (Str b)]
                else [Some (Str b), Some (Str a)])
       \<and> wittgenstein_class_attr_domain c =
           Inr (if startswith a ''NO_'' then [Some (Str a), Some (Str b)]
                else [Some (Str b), Some (Str a)])"
proof -
  have "is_binary c"
    using nunique_le [of "cells c"] assms(1) by (simp add: is_binary_def)
  moreover have "order_class_attr_domain [Some (Str a), Some (Str b)] =
           Inr (if startswith a ''NO_'' then [Some (Str a), Some (Str b)]
                else [Some (Str b), Some (Str a)])"
    using assms(2) by (auto simp: order_class_attr_domain_def item_def)
  ultimately show ?thesis
    using assms(1) by (simp add: sklearn_class_attr_domain_def wittgenstein_class_attr_domain_def)
qed

text \<open>The theorem at a column in which the positive value is met first.\<close>

theorem class_domain_ordering_witness:
  "unique (cells \<lparr>cname = ''default'', dtype = ''object'',
             cells = [Some (Str ''paid''), Some (Str ''NO_default''), Some (Str ''paid'')]\<rparr>)
     = [Some (Str ''paid''), Some (Str ''NO_default'')]
   \<and> startswith ''paid'' ''NO_'' \<noteq> startswith ''NO_default'' ''NO_''
   \<and> sklearn_class_attr_domain \<lparr>cname = ''default'', dtype = ''object'',
             cells = [Some (Str ''paid''), Some (Str ''NO_default''), Some (Str ''paid'')]\<rparr>
     = Inr [Some (Str ''NO_default''), Some (Str ''paid'')]
   \<and> wittgenstein_class_attr_domain \<lparr>cname = ''default'', dtype = ''object'',
             cells = [Some (Str ''paid''), Some (Str ''NO_default''), Some (Str ''paid'')]\<rparr>
     = Inr [Some (Str ''NO_default''), Some (Str ''paid'')]"
proof -
  have u: "unique (cells \<lparr>cname = ''default'', dtype = ''object'',
             cells = [Some (Str ''paid''), Some (Str ''NO_default''), Some (Str ''paid'')]\<rparr>)
     = [Some (Str ''paid''), Some (Str ''NO_default'')]"
    by simp
  have s: "startswith ''paid'' ''NO_'' \<noteq> startswith ''NO_default'' ''NO_''"
    by simp
  from class_domain_ordering [OF u s] u s show ?thesis by simp
qed

text \<open>
  C9. When the column of the class attribute has fewer than two values, the script ends
  with the \<^verbatim>\<open>IndexError\<close> of line 105 and has written nothing of the model, whatever the
  learner would return: the check of line 95 lets a column of one value pass, and
  \<^verbatim>\<open>class_attr_domain[1]\<close> does not exist.
\<close>

theorem degenerate_class_domain_fails:
  assumes "get_class_attr train = Inr class_attr"
    and "getitem train class_attr = Inr c"
    and "length (unique (cells c)) < 2"
  shows "wittgenstein_main learn classifier train th = ([], Some IndexError)"
proof -
  have "is_binary c"
    using nunique_le [of "cells c"] assms(3) by (simp add: is_binary_def)
  moreover have "order_class_attr_domain (unique (cells c)) = Inl IndexError"
    using assms(3) by (simp add: order_class_attr_domain_def item_def)
  ultimately have "wittgenstein_class_attr_domain c = Inl IndexError"
    by (simp add: wittgenstein_class_attr_domain_def)
  then have "wittgenstein_class train = Inl IndexError"
    using assms(1,2) by (simp add: wittgenstein_class_def)
  then show ?thesis by (simp add: wittgenstein_main_def)
qed

theorem degenerate_class_domain_fails_witness:
  "get_class_attr
       \<lparr>nrows = 2, columns =
          [\<lparr>cname = ''age'', dtype = ''float64'', cells = [Some (Num 30), Some (Num 41)]\<rparr>,
           \<lparr>cname = ''default'', dtype = ''object'',
              cells = [Some (Str ''paid''), Some (Str ''paid'')]\<rparr>,
           \<lparr>cname = ''__ID_piton__'', dtype = ''int64'', cells = [Some (Num 1), Some (Num 2)]\<rparr>]\<rparr>
     = Inr ''default''
   \<and> length (unique [Some (Str ''paid''), Some (Str ''paid'')]) < 2
   \<and> wittgenstein_main (\<lambda>classifier df class_feat pos_class. Inr [''[[X0X=30.0-41.0]]''])
        ''RIPPERk''
       \<lparr>nrows = 2, columns =
          [\<lparr>cname = ''age'', dtype = ''float64'', cells = [Some (Num 30), Some (Num 41)]\<rparr>,
           \<lparr>cname = ''default'', dtype = ''object'',
              cells = [Some (Str ''paid''), Some (Str ''paid'')]\<rparr>,
           \<lparr>cname = ''__ID_piton__'', dtype = ''int64'', cells = [Some (Num 1), Some (Num 2)]\<rparr>]\<rparr>
        (Finite (1 / 2))
     = ([], Some IndexError)"
proof -
  let ?c = "\<lparr>cname = ''default'', dtype = ''object'',
              cells = [Some (Str ''paid''), Some (Str ''paid'')]\<rparr>"
  let ?train = "\<lparr>nrows = 2, columns =
          [\<lparr>cname = ''age'', dtype = ''float64'', cells = [Some (Num 30), Some (Num 41)]\<rparr>, ?c,
           \<lparr>cname = ''__ID_piton__'', dtype = ''int64'', cells = [Some (Num 1), Some (Num 2)]\<rparr>]\<rparr>"
  have g: "get_class_attr ?train = Inr ''default''"
    by (simp add: get_class_attr_def)
  have c: "getitem ?train ''default'' = Inr ?c"
    by (simp add: getitem_def)
  have u: "length (unique (cells ?c)) < 2"
    by simp
  from degenerate_class_domain_fails [OF g c u] g u show ?thesis by simp
qed

subsection \<open>The codec of the attribute names\<close>

text \<open>
  C5. The claim is that the decode table gives the name back for the token of every
  attribute. For the columns \<^verbatim>\<open>Volume\<close> and \<^verbatim>\<open>class\<close> the token of \<^verbatim>\<open>Volume\<close> is
  \<^verbatim>\<open>X0X\<close>, and \<^verbatim>\<open>replace_words\<close> with the table of lines 123 to 132 first puts the name in
  its place and then, at the entry for \<^verbatim>\<open>V\<close>, rewrites the first letter of the name. The
  second half of the claim holds: none of the tokens \<^verbatim>\<open>X1X\<close>, \<^verbatim>\<open>X10X\<close>, \<^verbatim>\<open>X16X\<close> occurs in
  another, as \<open>tokens_do_not_overlap\<close> shows for all tokens.
\<close>

theorem attribute_decode_mangles_name:
  "attribute_encode_loop [''Volume'', ''class''] 0 [] =
     ([(''Volume'', ''X0X''), (''class'', ''X1X'')], 2)
   \<and> make_attribute_decode [(''Volume'', ''X0X''), (''class'', ''X1X'')]
       [Some (Str ''NO_paid''), Some (Str ''paid'')] =
     Inr [(''X0X'', Some (Str ''Volume'')), (''X1X'', Some (Str ''class'')),
          ('' ^ '', Some (Str '') AND ('')), (''='', Some (Str '' = '')),
          (''V'', Some (Str (''=> paid'' @ [CHR 0x0A]))), (''[['', Some (Str ''('')),
          ('']]'', Some (Str '')'')), (''['', Some (Str ''('')), ('']'', Some (Str '')''))]
   \<and> replace_words ''X0X''
       [(''X0X'', Some (Str ''Volume'')), (''X1X'', Some (Str ''class'')),
        ('' ^ '', Some (Str '') AND ('')), (''='', Some (Str '' = '')),
        (''V'', Some (Str (''=> paid'' @ [CHR 0x0A]))), (''[['', Some (Str ''('')),
        ('']]'', Some (Str '')'')), (''['', Some (Str ''('')), ('']'', Some (Str '')''))]
     = Inr (''=> paid'' @ [CHR 0x0A] @ ''olume'')
   \<and> ''X'' @ str 1 @ ''X'' = ''X1X'' \<and> ''X'' @ str 10 @ ''X'' = ''X10X''
   \<and> ''X'' @ str 16 @ ''X'' = ''X16X''
   \<and> \<not> contains ''X10X'' ''X1X'' \<and> \<not> contains ''X16X'' ''X1X''
   \<and> \<not> contains ''X1X'' ''X10X'' \<and> \<not> contains ''X16X'' ''X10X''
   \<and> \<not> contains ''X1X'' ''X16X'' \<and> \<not> contains ''X10X'' ''X16X''"
  by code_simp

subsection \<open>The passes of the normalizer\<close>

text \<open>
  C8, as amended. The tables are those that the script builds: the tokens of the
  attributes come from the loop of line 118, the table of the attributes from lines 123 to
  132, and the table of the domains has strings for its values and keys without a blank
  and without \<^verbatim>\<open>=\<close>, as the tokens \<^verbatim>\<open>X2X\<close> and \<^verbatim>\<open>Y2Y\<close> of line 143 are. When no key of
  the two tables other than \<^verbatim>\<open>=\<close> occurs in the text of a rule, and every \<^verbatim>\<open>=\<close> of the text
  stands in a comparison \<^verbatim>\<open>>=\<close> or \<^verbatim>\<open><=\<close> followed by a blank, the three passes return the
  text as it is.
\<close>

theorem normalize_fixed_point:
  assumes "attribute_encode_loop attributes 0 [] = (attribute_encode, i)"
    and "make_attribute_decode attribute_encode class_attr_domain = Inr attribute_decode"
    and "str_valued domain_decode"
    and "\<forall>k \<in> fst ` set domain_decode. CHR ''='' \<notin> set k \<and> CHR '' '' \<notin> set k"
    and "\<forall>k \<in> fst ` set (attribute_decode @ domain_decode). k \<noteq> ''='' \<longrightarrow> \<not> contains rule k"
    and "comparison_only rule"
  shows "normalize_rule attribute_decode domain_decode rule = Inr rule"
proof -
  let ?T = "invert_dict attribute_encode []"
  let ?sp = "replace_nonempty ''='' '' = '' rule"
  from attribute_decode_order [OF assms(1,2)] obtain positive where
    ad: "attribute_decode = ?T @ structural_entries positive"
    and tok: "\<forall>k \<in> fst ` set ?T. \<exists>n. k = ''X'' @ str n @ ''X''"
    by blast
  have "str_valued ?T"
    by (rule str_valued_invert) (simp add: str_valued_def)
  moreover have "\<forall>k \<in> fst ` set ?T. \<not> contains rule k"
  proof
    fix k assume k: "k \<in> fst ` set ?T"
    with tok have "k \<noteq> ''=''" by auto
    moreover from k ad have "k \<in> fst ` set (attribute_decode @ domain_decode)" by auto
    ultimately show "\<not> contains rule k" using assms(5) by blast
  qed
  ultimately have 1: "replace_words rule ?T = Inr rule"
    by (intro replace_words_absent)
  have absent: "\<not> contains rule '' ^ ''" "\<not> contains rule ''V''" "\<not> contains rule ''[[''"
    "\<not> contains rule '']]''" "\<not> contains rule ''[''" "\<not> contains rule '']''"
    using assms(5) by (simp_all add: ad structural_entries_def)
  have spaced: "\<not> contains ?sp ''V''" "\<not> contains ?sp ''[[''" "\<not> contains ?sp '']]''"
    "\<not> contains ?sp ''[''" "\<not> contains ?sp '']''"
    using absent contains_spaced [of _ rule] by auto
  have 2: "replace_words rule (structural_entries positive) = Inr ?sp"
    by (simp add: structural_entries_def replace_def replace_nonempty_absent absent spaced)
  have 3: "replace_words rule attribute_decode = Inr ?sp"
    by (simp add: ad replace_words_append 1 2)
  have "\<forall>k \<in> fst ` set domain_decode. \<not> contains ?sp k"
  proof
    fix k assume k: "k \<in> fst ` set domain_decode"
    with assms(4) have e: "CHR ''='' \<notin> set k" "CHR '' '' \<notin> set k" by auto
    then have "k \<noteq> ''=''" by auto
    with k assms(5) have "\<not> contains rule k" by auto
    with contains_spaced [OF e] show "\<not> contains ?sp k" by blast
  qed
  then have 4: "replace_words ?sp domain_decode = Inr ?sp"
    using assms(3) by (intro replace_words_absent)
  show ?thesis
    by (simp add: normalize_rule_def decode_rule_def 3 4 split_ranges_spaced [OF assms(6)]
          adjust_spaced [OF assms(6)])
qed

theorem normalize_fixed_point_witness:
  "attribute_encode_loop [''age'', ''default''] 0 []
     = ([(''age'', ''X0X''), (''default'', ''X1X'')], 2)
   \<and> make_attribute_decode [(''age'', ''X0X''), (''default'', ''X1X'')]
       [Some (Str ''NO_paid''), Some (Str ''paid'')] =
     Inr [(''X0X'', Some (Str ''age'')), (''X1X'', Some (Str ''default'')),
          ('' ^ '', Some (Str '') AND ('')), (''='', Some (Str '' = '')),
          (''V'', Some (Str (''=> paid'' @ [CHR 0x0A]))), (''[['', Some (Str ''('')),
          ('']]'', Some (Str '')'')), (''['', Some (Str ''('')), ('']'', Some (Str '')''))]
   \<and> str_valued [(''X2X'', Some (Str ''f'')), (''Y2Y'', Some (Str ''m''))]
   \<and> comparison_only ''(age >= 23.3) AND (age <= -26.6)''
   \<and> normalize_rule
       [(''X0X'', Some (Str ''age'')), (''X1X'', Some (Str ''default'')),
        ('' ^ '', Some (Str '') AND ('')), (''='', Some (Str '' = '')),
        (''V'', Some (Str (''=> paid'' @ [CHR 0x0A]))), (''[['', Some (Str ''('')),
        ('']]'', Some (Str '')'')), (''['', Some (Str ''('')), ('']'', Some (Str '')''))]
       [(''X2X'', Some (Str ''f'')), (''Y2Y'', Some (Str ''m''))]
       ''[X0X=23.3-26.6]]''
     = Inr ''(age >= 23.3) AND (age <= -26.6)''
   \<and> normalize_rule
       [(''X0X'', Some (Str ''age'')), (''X1X'', Some (Str ''default'')),
        ('' ^ '', Some (Str '') AND ('')), (''='', Some (Str '' = '')),
        (''V'', Some (Str (''=> paid'' @ [CHR 0x0A]))), (''[['', Some (Str ''('')),
        ('']]'', Some (Str '')'')), (''['', Some (Str ''('')), ('']'', Some (Str '')''))]
       [(''X2X'', Some (Str ''f'')), (''Y2Y'', Some (Str ''m''))]
       ''(age >= 23.3) AND (age <= -26.6)''
     = Inr ''(age >= 23.3) AND (age <= -26.6)''"
proof -
  let ?ad = "[(''X0X'', Some (Str ''age'')), (''X1X'', Some (Str ''default'')),
        ('' ^ '', Some (Str '') AND ('')), (''='', Some (Str '' = '')),
        (''V'', Some (Str (''=> paid'' @ [CHR 0x0A]))), (''[['', Some (Str ''('')),
        ('']]'', Some (Str '')'')), (''['', Some (Str ''('')), ('']'', Some (Str '')''))]"
  let ?dd = "[(''X2X'', Some (Str ''f'')), (''Y2Y'', Some (Str ''m''))]"
  let ?rule = "''(age >= 23.3) AND (age <= -26.6)''"
  have e: "attribute_encode_loop [''age'', ''default''] 0 []
             = ([(''age'', ''X0X''), (''default'', ''X1X'')], 2)"
    by code_simp
  have m: "make_attribute_decode [(''age'', ''X0X''), (''default'', ''X1X'')]
       [Some (Str ''NO_paid''), Some (Str ''paid'')] = Inr ?ad"
    by code_simp
  have s: "str_valued ?dd"
    by (simp add: str_valued_def)
  have d: "\<forall>k \<in> fst ` set ?dd. CHR ''='' \<notin> set k \<and> CHR '' '' \<notin> set k"
    by simp
  have k: "\<forall>k \<in> fst ` set (?ad @ ?dd). k \<noteq> ''='' \<longrightarrow> \<not> contains ?rule k"
    by simp
  have c: "comparison_only ?rule"
    by simp
  have f: "normalize_rule ?ad ?dd ''[X0X=23.3-26.6]]'' = Inr ?rule"
    by code_simp
  from normalize_fixed_point [OF e m s d k c] e m s c f show ?thesis by blast
qed

text \<open>
  C8 as it is stated fails at the text \<^verbatim>\<open>(age = 5)\<close>. It is what the passes make of the
  line \<^verbatim>\<open>[X0X=5]\<close> of the learner, with no token and no range left in it; the passes
  run on it once more put blanks round its \<^verbatim>\<open>=\<close> again.
\<close>

theorem normalize_idempotence_counterexample:
  "normalize_rule
       [(''X0X'', Some (Str ''age'')), (''X1X'', Some (Str ''default'')),
        ('' ^ '', Some (Str '') AND ('')), (''='', Some (Str '' = '')),
        (''V'', Some (Str (''=> paid'' @ [CHR 0x0A]))), (''[['', Some (Str ''('')),
        ('']]'', Some (Str '')'')), (''['', Some (Str ''('')), ('']'', Some (Str '')''))]
       [] ''[X0X=5]''
     = Inr ''(age = 5)''
   \<and> normalize_rule
       [(''X0X'', Some (Str ''age'')), (''X1X'', Some (Str ''default'')),
        ('' ^ '', Some (Str '') AND ('')), (''='', Some (Str '' = '')),
        (''V'', Some (Str (''=> paid'' @ [CHR 0x0A]))), (''[['', Some (Str ''('')),
        ('']]'', Some (Str '')'')), (''['', Some (Str ''('')), ('']'', Some (Str '')''))]
       [] ''(age = 5)''
     = Inr ''(age  =  5)''
   \<and> ''(age  =  5)'' \<noteq> ''(age = 5)''
   \<and> \<not> comparison_only ''(age = 5)''
   \<and> make_attribute_decode [(''age'', ''X0X''), (''default'', ''X1X'')]
       [Some (Str ''NO_paid''), Some (Str ''paid'')] =
     Inr [(''X0X'', Some (Str ''age'')), (''X1X'', Some (Str ''default'')),
          ('' ^ '', Some (Str '') AND ('')), (''='', Some (Str '' = '')),
          (''V'', Some (Str (''=> paid'' @ [CHR 0x0A]))), (''[['', Some (Str ''('')),
          ('']]'', Some (Str '')'')), (''['', Some (Str ''('')), ('']'', Some (Str '')''))]"
  by code_simp


end
